theory Spec2Isabelle
  imports Main
begin

section \<open>Python built-ins used by saga.py\<close>

text \<open>
  Strings are \<open>string\<close>, character lists. \<open>str.upper\<close> is modelled on the ASCII letters
  (codes 97 to 122 move down by 32); every other character is left as it is.
\<close>

definition upper_char :: "char \<Rightarrow> char" where
  "upper_char c =
     (let n = (of_char c :: nat) in if 97 \<le> n \<and> n \<le> 122 then char_of (n - 32) else c)"

definition upper :: "string \<Rightarrow> string" where
  "upper s = map upper_char s"

text \<open>\<open>s.startswith(p)\<close>\<close>

definition startswith :: "string \<Rightarrow> string \<Rightarrow> bool" where
  "startswith s p = (take (length p) s = p)"

text \<open>
  A \<open>dict\<close> keeps its entries in insertion order: it is a list of key and value pairs
  with distinct keys. \<open>d[k] = v\<close> overwrites the value of a key that is present, where the
  entry stands, and appends the entry otherwise.
\<close>

primrec dict_setitem :: "'k \<Rightarrow> 'v \<Rightarrow> ('k \<times> 'v) list \<Rightarrow> ('k \<times> 'v) list" where
  "dict_setitem k v [] = [(k, v)]"
| "dict_setitem k v (e # d) = (if fst e = k then (k, v) # d else e # dict_setitem k v d)"

text \<open>The dict comprehension \<open>{k: f(v) for k, v in kwargs.items()}\<close>.\<close>

definition dict_comprehension :: "('v \<Rightarrow> 'w) \<Rightarrow> ('k \<times> 'v) list \<Rightarrow> ('k \<times> 'w) list" where
  "dict_comprehension f kwargs = foldl (\<lambda>d (k, v). dict_setitem k (f v) d) [] kwargs"


section \<open>Flag\<close>

record Flag =
  flag :: "string option"

definition Flag_str :: "Flag \<Rightarrow> string" where
  "Flag_str self =
     (case flag self of
        None \<Rightarrow> []
      | Some s \<Rightarrow> if \<not> startswith s ''--'' then concat [''--'' @ s] else s)"

definition Flag_bool :: "Flag \<Rightarrow> bool" where
  "Flag_bool self = (flag self \<noteq> None)"

text \<open>
  The right operand of \<open>==\<close> is another Flag or a plain string. \<open>Flag.__eq__\<close> evaluates
  \<open>str(self) == other\<close>, a comparison whose left operand is a string: Python calls
  \<open>str.__eq__\<close> first, which answers for a string and returns \<open>NotImplemented\<close> (here
  \<open>None\<close>) for a Flag, and then the reflected \<open>other.__eq__(str(self))\<close>, which is
  \<open>Flag.__eq__\<close> again, now with a string as its right operand.
\<close>

datatype operand = OperandFlag Flag | OperandStr string

definition str_eq :: "string \<Rightarrow> operand \<Rightarrow> bool option" where
  "str_eq s other = (case other of OperandStr t \<Rightarrow> Some (s = t) | OperandFlag g \<Rightarrow> None)"

definition Flag_eq_string :: "Flag \<Rightarrow> string \<Rightarrow> bool" where
  "Flag_eq_string self other = (case str_eq (Flag_str self) (OperandStr other) of
                                  Some b \<Rightarrow> b | None \<Rightarrow> False)"

definition Flag_eq :: "Flag \<Rightarrow> operand \<Rightarrow> bool" where
  "Flag_eq self other =
     (case str_eq (Flag_str self) other of
        Some b \<Rightarrow> b
      | None \<Rightarrow>
          (case other of
             OperandFlag g \<Rightarrow> Flag_eq_string g (Flag_str self)
           | OperandStr t \<Rightarrow> False))"


section \<open>Parameters\<close>

text \<open>
  \<open>Parameters\<close> is a dict (field \<open>items\<close>, the entries in order) with one more
  attribute, \<open>_params\<close> (field \<open>params\<close>). The keyword arguments arrive as a dict
  \<open>kwargs\<close>; the values are of any type that has \<open>__str__\<close>, given here by the
  function \<open>str\<close>.
\<close>

record Parameters =
  items :: "(string \<times> string) list"
  params :: "string list"

text \<open>\<open>'-{K}={v}'.format(K=k.upper(), v=v)\<close>\<close>

definition format_param :: "string \<Rightarrow> string \<Rightarrow> string" where
  "format_param k v = ''-'' @ upper k @ ''='' @ v"

definition Parameters_init :: "('v \<Rightarrow> string) \<Rightarrow> (string \<times> 'v) list \<Rightarrow> Parameters" where
  "Parameters_init str kwargs =
     (let d = dict_comprehension str kwargs
      in \<lparr>items = d, params = [format_param k v. (k, v) \<leftarrow> d]\<rparr>)"

definition Parameters_iter :: "Parameters \<Rightarrow> string list" where
  "Parameters_iter self = params self"


section \<open>The operating system\<close>

text \<open>
  What the program sees of its host: the file system at the paths it tests, the default
  path that \<open>get_sagacmd_default()\<close> finds, what becomes of a child process started
  with a given argument vector, the decoder of the locale's encoding (strict: it fails on
  bytes that are not text), and the argument vectors of the processes started so far.
\<close>

record entry =
  is_dir :: bool
  executable :: bool

datatype child = SpawnFails string | Exits int "nat list" "nat list"

record system =
  files :: "string \<Rightarrow> entry option"
  sagacmd_default :: string
  run_child :: "string list \<Rightarrow> child"
  decode :: "nat list \<Rightarrow> string option"
  spawned :: "string list list"

datatype exn =
    PathDoesNotExist
  | IsADirectoryError
  | NotExecutableError
  | IndexError
  | ValueError
  | OSError string
  | UnicodeDecodeError
  | CalledProcessError int

text \<open>The strict decoder of the ASCII codec, one of the encodings a locale can have.\<close>

definition ascii_decode :: "nat list \<Rightarrow> string option" where
  "ascii_decode bs = (if list_all (\<lambda>b. b < 128) bs then Some (map char_of bs) else None)"


section \<open>subprocess.run\<close>

record CompletedProcess =
  argv :: "string list"
  returncode :: int
  stdout :: string
  stderr :: string

text \<open>
  With \<open>text=True\<close> each captured stream goes through \<open>_translate_newlines\<close>: the
  bytes are decoded, which can fail, and then
  \<open>data.replace("\r\n", "\n").replace("\r", "\n")\<close>.
\<close>

fun replace_crlf :: "string \<Rightarrow> string" where
  "replace_crlf (c # d # cs) =
     (if c = CHR 0x0D \<and> d = CHR 0x0A then CHR 0x0A # replace_crlf cs
      else c # replace_crlf (d # cs))"
| "replace_crlf cs = cs"

definition replace_cr :: "string \<Rightarrow> string" where
  "replace_cr s = map (\<lambda>c. if c = CHR 0x0D then CHR 0x0A else c) s"

definition translate_newlines :: "(nat list \<Rightarrow> string option) \<Rightarrow> nat list \<Rightarrow> string option" where
  "translate_newlines dec data =
     (case dec data of None \<Rightarrow> None | Some s \<Rightarrow> Some (replace_cr (replace_crlf s)))"

text \<open>
  \<open>subprocess.run(args, capture_output=True, text=True, check=check)\<close>, as on POSIX.
  An empty argument vector raises \<open>IndexError\<close> (there is no \<open>args[0]\<close>), and an argument
  with a NUL character raises \<open>ValueError\<close>, both before any process is started. A
  process that cannot be started raises the operating system's error. Otherwise the child
  runs to its end, both captured streams are decoded and their newlines translated, and
  only then, with \<open>check\<close>, a non-zero status raises.
\<close>

definition subprocess_run ::
  "system \<Rightarrow> string list \<Rightarrow> bool \<Rightarrow> (exn + CompletedProcess) \<times> system" where
  "subprocess_run sys a check =
     (if a = [] then (Inl IndexError, sys)
      else if list_ex (\<lambda>s. CHR 0x00 \<in> set s) a then (Inl ValueError, sys)
      else
        (case run_child sys a of
           SpawnFails e \<Rightarrow> (Inl (OSError e), sys)
         | Exits rc out err \<Rightarrow>
             (let sys' = sys\<lparr>spawned := spawned sys @ [a]\<rparr> in
              case translate_newlines (decode sys) out of
                None \<Rightarrow> (Inl UnicodeDecodeError, sys')
              | Some out' \<Rightarrow>
                  (case translate_newlines (decode sys) err of
                     None \<Rightarrow> (Inl UnicodeDecodeError, sys')
                   | Some err' \<Rightarrow>
                       if check \<and> rc \<noteq> 0 then (Inl (CalledProcessError rc), sys')
                       else (Inr \<lparr>argv = a, returncode = rc, stdout = out', stderr = err'\<rparr>,
                             sys')))))"


section \<open>SAGACMD\<close>

record SAGACMD =
  saga_cmd_path :: string

text \<open>
  Modelled from the spec: \<open>check_is_file\<close> of src/utils.py, which is not among the
  sources. The spec has the existence check first and the not-a-directory check second,
  each with an error kind of its own.
\<close>

definition check_is_file :: "system \<Rightarrow> string \<Rightarrow> exn + unit" where
  "check_is_file sys p =
     (case files sys p of
        None \<Rightarrow> Inl PathDoesNotExist
      | Some e \<Rightarrow> if is_dir e then Inl IsADirectoryError else Inr ())"

text \<open>
  Modelled from the spec: \<open>check_is_executable\<close> of src/utils.py, which is not among the
  sources. The spec has it as the third check, with the not-executable error kind.
\<close>

definition check_is_executable :: "system \<Rightarrow> string \<Rightarrow> exn + unit" where
  "check_is_executable sys p =
     (case files sys p of
        None \<Rightarrow> Inl NotExecutableError
      | Some e \<Rightarrow> if executable e then Inr () else Inl NotExecutableError)"

text \<open>
  \<open>SAGACMD.__init__\<close>. The path is kept as the text that \<open>os.fspath\<close> returns for it.
  The result carries the system as the constructor leaves it.
\<close>

definition SAGACMD_init :: "system \<Rightarrow> string option \<Rightarrow> (exn + SAGACMD) \<times> system" where
  "SAGACMD_init sys saga_cmd_path_arg =
     (let p = (case saga_cmd_path_arg of None \<Rightarrow> sagacmd_default sys | Some q \<Rightarrow> q) in
      case check_is_file sys p of
        Inl e \<Rightarrow> (Inl e, sys)
      | Inr _ \<Rightarrow>
          (case check_is_executable sys p of
             Inl e \<Rightarrow> (Inl e, sys)
           | Inr _ \<Rightarrow> (Inr \<lparr>saga_cmd_path = p\<rparr>, sys)))"

definition SAGACMD_str :: "SAGACMD \<Rightarrow> string" where
  "SAGACMD_str self = saga_cmd_path self"


section \<open>Objects and the heap\<close>

text \<open>
  Flag objects and the three kinds of Executable are objects with identity: a Flag is
  handed from a parent to its child by reference, and a Tool keeps a reference to its
  Library. The heap is the list of the objects allocated so far; an address is an index.
  Field \<open>flag_ref\<close> is the attribute \<open>_flag\<close>; \<open>library_ref\<close> is the attribute \<open>library\<close> of
  a Tool.
\<close>

type_synonym addr = nat

record Executable =
  saga_cmd :: SAGACMD
  flag_ref :: addr

type_synonym SAGA = Executable

record Library = Executable +
  library :: string

record Tool = Executable +
  library_ref :: addr
  tool :: string
  parameters :: Parameters

datatype obj = OFlag Flag | OSAGA SAGA | OLibrary Library | OTool Tool

type_synonym heap = "obj list"

definition lookup :: "heap \<Rightarrow> addr \<Rightarrow> obj option" where
  "lookup h a = (if a < length h then Some (h ! a) else None)"

definition new :: "heap \<Rightarrow> obj \<Rightarrow> addr \<times> heap" where
  "new h x = (length h, h @ [x])"

definition Library_str :: "Library \<Rightarrow> string" where
  "Library_str self = library self"


section \<open>Command\<close>

text \<open>
  The arguments of \<open>Command(...)\<close> are objects of four kinds. Truth of an argument is
  Python's: a SAGACMD and a Library define neither \<open>__bool__\<close> nor \<open>__len__\<close> and are
  true; a Flag has \<open>__bool__\<close>; a string is true when it is not empty.
\<close>

datatype arg = ArgSAGACMD SAGACMD | ArgFlag Flag | ArgLibrary Library | ArgStr string

fun truthy :: "arg \<Rightarrow> bool" where
  "truthy (ArgSAGACMD c) = True"
| "truthy (ArgFlag f) = Flag_bool f"
| "truthy (ArgLibrary l) = True"
| "truthy (ArgStr s) = (s \<noteq> [])"

fun arg_str :: "arg \<Rightarrow> string" where
  "arg_str (ArgSAGACMD c) = SAGACMD_str c"
| "arg_str (ArgFlag f) = Flag_str f"
| "arg_str (ArgLibrary l) = Library_str l"
| "arg_str (ArgStr s) = s"

record Command =
  args :: "string list"

definition Command_init :: "arg list \<Rightarrow> Command" where
  "Command_init xs = \<lparr>args = [arg_str x. x \<leftarrow> xs, truthy x]\<rparr>"

definition Command_execute :: "system \<Rightarrow> Command \<Rightarrow> (exn + CompletedProcess) \<times> system" where
  "Command_execute sys self = subprocess_run sys (args self) False"


section \<open>Output\<close>

record Output =
  completed_process :: CompletedProcess
  out_parameters :: Parameters
  text_out :: string

text \<open>The generated constructor followed by \<open>__post_init__\<close>.\<close>

definition Output_init :: "CompletedProcess \<Rightarrow> Parameters \<Rightarrow> Output" where
  "Output_init cp ps = \<lparr>completed_process = cp, out_parameters = ps, text_out = stdout cp\<rparr>"

text \<open>
  Modelled from the spec: the constructors \<open>Raster\<close> and \<open>Vector\<close> of the module
  \<open>objects\<close>, which is not among the sources. The spec has them as single-argument
  constructors that take a path-like string and return a handle.
\<close>

datatype Raster = Raster string

datatype Vector = Vector string

text \<open>The argument of the extraction methods: one name, or a sequence of names.\<close>

datatype names = Name string | Names "string list"

definition name_list :: "names \<Rightarrow> string list" where
  "name_list parameters_arg = (case parameters_arg of Name s \<Rightarrow> [s] | Names l \<Rightarrow> l)"

definition get_raster :: "Output \<Rightarrow> names \<Rightarrow> Raster list" where
  "get_raster self parameters_arg =
     (let ps = name_list parameters_arg in
      [Raster v. (k, v) \<leftarrow> items (out_parameters self), k \<in> set ps])"

definition get_vector :: "Output \<Rightarrow> names \<Rightarrow> Vector list" where
  "get_vector self parameters_arg =
     (let ps = name_list parameters_arg in
      [Vector v. (k, v) \<leftarrow> items (out_parameters self), k \<in> set ps])"


section \<open>SAGA, Library and Tool\<close>

text \<open>
  The two leading steps of each \<open>__init__\<close>: an argument that is not a SAGACMD is given
  to the SAGACMD constructor, and an argument that is not a Flag object is wrapped in a
  new Flag object.
\<close>

datatype saga_cmd_arg = SagaCmdObject SAGACMD | SagaCmdPath "string option"

datatype flag_arg = FlagObject addr | FlagRaw "string option"

definition init_saga_cmd :: "system \<Rightarrow> saga_cmd_arg \<Rightarrow> (exn + SAGACMD) \<times> system" where
  "init_saga_cmd sys a =
     (case a of SagaCmdObject c \<Rightarrow> (Inr c, sys) | SagaCmdPath p \<Rightarrow> SAGACMD_init sys p)"

definition init_flag :: "heap \<Rightarrow> flag_arg \<Rightarrow> addr \<times> heap" where
  "init_flag h a = (case a of FlagObject r \<Rightarrow> (r, h) | FlagRaw v \<Rightarrow> new h (OFlag \<lparr>flag = v\<rparr>))"

text \<open>
  The constructors. \<open>SAGA_new\<close>, \<open>Library_new\<close> and \<open>Tool_new\<close> are the bodies of
  the three \<open>__init__\<close> from the Flag argument on, once \<open>saga_cmd\<close> is a SAGACMD. When
  the SAGACMD constructor raises, the new object is never bound and the heap is as before.
\<close>

definition SAGA_new :: "heap \<Rightarrow> SAGACMD \<Rightarrow> flag_arg \<Rightarrow> addr \<times> heap" where
  "SAGA_new h c fa =
     (let (f, h1) = init_flag h fa in new h1 (OSAGA \<lparr>saga_cmd = c, flag_ref = f\<rparr>))"

definition SAGA_init ::
  "system \<Rightarrow> heap \<Rightarrow> saga_cmd_arg \<Rightarrow> flag_arg \<Rightarrow> (exn + addr \<times> heap) \<times> system" where
  "SAGA_init sys h sa fa =
     (case init_saga_cmd sys sa of
        (Inl e, sys') \<Rightarrow> (Inl e, sys')
      | (Inr c, sys') \<Rightarrow> (Inr (SAGA_new h c fa), sys'))"

definition Library_new :: "heap \<Rightarrow> string \<Rightarrow> SAGACMD \<Rightarrow> flag_arg \<Rightarrow> addr \<times> heap" where
  "Library_new h lib c fa =
     (let (f, h1) = init_flag h fa
      in new h1 (OLibrary \<lparr>saga_cmd = c, flag_ref = f, library = lib\<rparr>))"

definition Library_init ::
  "system \<Rightarrow> heap \<Rightarrow> string \<Rightarrow> saga_cmd_arg \<Rightarrow> flag_arg \<Rightarrow> (exn + addr \<times> heap) \<times> system" where
  "Library_init sys h lib sa fa =
     (case init_saga_cmd sys sa of
        (Inl e, sys') \<Rightarrow> (Inl e, sys')
      | (Inr c, sys') \<Rightarrow> (Inr (Library_new h lib c fa), sys'))"

definition Tool_new :: "heap \<Rightarrow> addr \<Rightarrow> string \<Rightarrow> SAGACMD \<Rightarrow> flag_arg \<Rightarrow> addr \<times> heap" where
  "Tool_new h lib tool_name c fa =
     (let (f, h1) = init_flag h fa
      in new h1 (OTool \<lparr>saga_cmd = c, flag_ref = f, library_ref = lib, tool = tool_name,
                         parameters = Parameters_init (\<lambda>v. v) []\<rparr>))"

definition Tool_init ::
  "system \<Rightarrow> heap \<Rightarrow> addr \<Rightarrow> string \<Rightarrow> saga_cmd_arg \<Rightarrow> flag_arg
   \<Rightarrow> (exn + addr \<times> heap) \<times> system" where
  "Tool_init sys h lib tool_name sa fa =
     (case init_saga_cmd sys sa of
        (Inl e, sys') \<Rightarrow> (Inl e, sys')
      | (Inr c, sys') \<Rightarrow> (Inr (Tool_new h lib tool_name c fa), sys'))"

text \<open>
  Descent. \<open>get_library\<close> and \<open>get_tool\<close> call the constructors with the parent's
  SAGACMD and the parent's Flag object: no path is validated, the constructor does not
  raise, and the child holds the reference to the parent's Flag object. The result is
  \<open>None\<close> only when \<open>self\<close> is not an object of the class.
\<close>

definition SAGA_get_library :: "heap \<Rightarrow> addr \<Rightarrow> string \<Rightarrow> (addr \<times> heap) option" where
  "SAGA_get_library h self lib =
     (case lookup h self of
        Some (OSAGA s) \<Rightarrow> Some (Library_new h lib (saga_cmd s) (FlagObject (flag_ref s)))
      | _ \<Rightarrow> None)"

definition Library_get_tool :: "heap \<Rightarrow> addr \<Rightarrow> string \<Rightarrow> (addr \<times> heap) option" where
  "Library_get_tool h self tool_name =
     (case lookup h self of
        Some (OLibrary l) \<Rightarrow>
          Some (Tool_new h self tool_name (saga_cmd l) (FlagObject (flag_ref l)))
      | _ \<Rightarrow> None)"

definition SAGA_get_tool :: "heap \<Rightarrow> addr \<Rightarrow> string \<Rightarrow> string \<Rightarrow> (addr \<times> heap) option" where
  "SAGA_get_tool h self lib tool_name =
     (case SAGA_get_library h self lib of
        None \<Rightarrow> None
      | Some (library_, h1) \<Rightarrow>
          (case lookup h1 self of
             Some (OSAGA s) \<Rightarrow>
               Some (Tool_new h1 library_ tool_name (saga_cmd s) (FlagObject (flag_ref s)))
           | _ \<Rightarrow> None))"

text \<open>
  The property \<open>flag\<close>, the same code in the three classes: the getter returns the Flag
  object, the setter binds \<open>_flag\<close> to a new Flag object made from the raw value, the
  deleter binds it to a new unset Flag object.
\<close>

fun obj_flag_ref :: "obj \<Rightarrow> addr option" where
  "obj_flag_ref (OFlag f) = None"
| "obj_flag_ref (OSAGA s) = Some (flag_ref s)"
| "obj_flag_ref (OLibrary l) = Some (flag_ref l)"
| "obj_flag_ref (OTool t) = Some (flag_ref t)"

fun obj_set_flag_ref :: "addr \<Rightarrow> obj \<Rightarrow> obj" where
  "obj_set_flag_ref r (OFlag f) = OFlag f"
| "obj_set_flag_ref r (OSAGA s) = OSAGA (s\<lparr>flag_ref := r\<rparr>)"
| "obj_set_flag_ref r (OLibrary l) = OLibrary (l\<lparr>flag_ref := r\<rparr>)"
| "obj_set_flag_ref r (OTool t) = OTool (t\<lparr>flag_ref := r\<rparr>)"

definition flag_getter :: "heap \<Rightarrow> addr \<Rightarrow> Flag option" where
  "flag_getter h self =
     (case lookup h self of
        None \<Rightarrow> None
      | Some x \<Rightarrow>
          (case obj_flag_ref x of
             None \<Rightarrow> None
           | Some r \<Rightarrow> (case lookup h r of Some (OFlag f) \<Rightarrow> Some f | _ \<Rightarrow> None)))"

definition flag_setter :: "heap \<Rightarrow> addr \<Rightarrow> string option \<Rightarrow> heap option" where
  "flag_setter h self v =
     (case lookup h self of
        None \<Rightarrow> None
      | Some x \<Rightarrow>
          (case obj_flag_ref x of
             None \<Rightarrow> None
           | Some _ \<Rightarrow>
               (let (r, h1) = new h (OFlag \<lparr>flag = v\<rparr>)
                in Some (h1[self := obj_set_flag_ref r x]))))"

definition flag_deleter :: "heap \<Rightarrow> addr \<Rightarrow> heap option" where
  "flag_deleter h self =
     (case lookup h self of
        None \<Rightarrow> None
      | Some x \<Rightarrow>
          (case obj_flag_ref x of
             None \<Rightarrow> None
           | Some _ \<Rightarrow>
               (let (r, h1) = new h (OFlag \<lparr>flag = None\<rparr>)
                in Some (h1[self := obj_set_flag_ref r x]))))"

text \<open>The property \<open>command\<close> of each class, and its dispatch on the class of \<open>self\<close>.\<close>

definition SAGA_command :: "heap \<Rightarrow> SAGA \<Rightarrow> Command option" where
  "SAGA_command h s =
     (case lookup h (flag_ref s) of
        Some (OFlag f) \<Rightarrow> Some (Command_init [ArgSAGACMD (saga_cmd s), ArgFlag f])
      | _ \<Rightarrow> None)"

definition Library_command :: "heap \<Rightarrow> Library \<Rightarrow> Command option" where
  "Library_command h l =
     (case lookup h (flag_ref l) of
        Some (OFlag f) \<Rightarrow>
          Some (Command_init [ArgSAGACMD (saga_cmd l), ArgFlag f, ArgStr (library l)])
      | _ \<Rightarrow> None)"

definition Tool_command :: "heap \<Rightarrow> Tool \<Rightarrow> Command option" where
  "Tool_command h t =
     (case lookup h (flag_ref t) of
        Some (OFlag f) \<Rightarrow>
          (case lookup h (library_ref t) of
             Some (OLibrary l) \<Rightarrow>
               Some (Command_init ([ArgSAGACMD (saga_cmd t), ArgFlag f, ArgLibrary l,
                                    ArgStr (tool t)]
                                   @ map ArgStr (Parameters_iter (parameters t))))
           | _ \<Rightarrow> None)
      | _ \<Rightarrow> None)"

definition command :: "heap \<Rightarrow> addr \<Rightarrow> Command option" where
  "command h self =
     (case lookup h self of
        Some (OSAGA s) \<Rightarrow> SAGA_command h s
      | Some (OLibrary l) \<Rightarrow> Library_command h l
      | Some (OTool t) \<Rightarrow> Tool_command h t
      | _ \<Rightarrow> None)"

text \<open>\<open>Tool.set_params\<close> and \<open>Tool.run_command\<close>.\<close>

definition set_params :: "('v \<Rightarrow> string) \<Rightarrow> heap \<Rightarrow> addr \<Rightarrow> (string \<times> 'v) list \<Rightarrow> heap option" where
  "set_params str h self kwargs =
     (case lookup h self of
        Some (OTool t) \<Rightarrow> Some (h[self := OTool (t\<lparr>parameters := Parameters_init str kwargs\<rparr>)])
      | _ \<Rightarrow> None)"

definition run_command ::
  "('v \<Rightarrow> string) \<Rightarrow> system \<Rightarrow> heap \<Rightarrow> addr \<Rightarrow> (string \<times> 'v) list
   \<Rightarrow> ((exn + Output) \<times> system \<times> heap) option" where
  "run_command str sys h self kwargs =
     (case (if kwargs \<noteq> [] then set_params str h self kwargs else Some h) of
        None \<Rightarrow> None
      | Some h1 \<Rightarrow>
          (case lookup h1 self of
             Some (OTool t) \<Rightarrow>
               (case Tool_command h1 t of
                  None \<Rightarrow> None
                | Some c \<Rightarrow>
                    (case Command_execute sys c of
                       (Inl e, sys') \<Rightarrow> Some (Inl e, sys', h1)
                     | (Inr completed, sys') \<Rightarrow>
                         Some (Inr (Output_init completed (parameters t)), sys', h1)))
           | _ \<Rightarrow> None))"

text \<open>
  A heap is well formed when every Executable in it refers to a Flag object and every
  Tool to a Library object. The constructors and the methods above keep it so.
\<close>

definition is_flag :: "heap \<Rightarrow> addr \<Rightarrow> bool" where
  "is_flag h a = (case lookup h a of Some (OFlag f) \<Rightarrow> True | _ \<Rightarrow> False)"

definition is_library :: "heap \<Rightarrow> addr \<Rightarrow> bool" where
  "is_library h a = (case lookup h a of Some (OLibrary l) \<Rightarrow> True | _ \<Rightarrow> False)"

fun wf_obj :: "heap \<Rightarrow> obj \<Rightarrow> bool" where
  "wf_obj h (OFlag f) = True"
| "wf_obj h (OSAGA s) = is_flag h (flag_ref s)"
| "wf_obj h (OLibrary l) = is_flag h (flag_ref l)"
| "wf_obj h (OTool t) = (is_flag h (flag_ref t) \<and> is_library h (library_ref t))"

definition wf_heap :: "heap \<Rightarrow> bool" where
  "wf_heap h = list_all (wf_obj h) h"


section \<open>Helper lemmas\<close>

lemma startswith_iff: "startswith s p \<longleftrightarrow> (\<exists>t. s = p @ t)"
proof
  assume "startswith s p"
  then have "s = p @ drop (length p) s"
    unfolding startswith_def by (metis append_take_drop_id)
  then show "\<exists>t. s = p @ t" ..
next
  assume "\<exists>t. s = p @ t"
  then show "startswith s p"
    unfolding startswith_def by auto
qed

lemma dict_setitem_fresh:
  "k \<notin> fst ` set d \<Longrightarrow> dict_setitem k v d = d @ [(k, v)]"
  by (induction d) auto

lemma foldl_setitem_distinct:
  "distinct (map fst d @ map fst kwargs) \<Longrightarrow>
   foldl (\<lambda>d (k, v). dict_setitem k (f v) d) d kwargs = d @ map (\<lambda>(k, v). (k, f v)) kwargs"
proof (induction kwargs arbitrary: d)
  case Nil
  then show ?case by simp
next
  case (Cons e kwargs)
  obtain k v where e: "e = (k, v)" by (cases e)
  from Cons.prems e have fresh: "k \<notin> fst ` set d" by auto
  from Cons.prems e have "distinct (map fst (d @ [(k, f v)]) @ map fst kwargs)" by auto
  from Cons.IH [OF this] fresh e show ?case
    by (simp add: dict_setitem_fresh)
qed

lemma dict_comprehension_distinct:
  "distinct (map fst kwargs) \<Longrightarrow>
   dict_comprehension f kwargs = map (\<lambda>(k, v). (k, f v)) kwargs"
  unfolding dict_comprehension_def using foldl_setitem_distinct [where d = "[]" and kwargs = kwargs and f = f]
  by simp

lemma params_comprehension:
  "[format_param k v. (k, v) \<leftarrow> d] = map (\<lambda>(k, v). format_param k v) d"
  by (induction d) auto


lemma comprehension_filter:
  "[f v. (k, v) \<leftarrow> d, k \<in> S] = map (\<lambda>e. f (snd e)) (filter (\<lambda>e. fst e \<in> S) d)"
  by (induction d) auto

lemma get_raster_filter:
  "get_raster out ns
     = map (\<lambda>e. Raster (snd e))
         (filter (\<lambda>e. fst e \<in> set (name_list ns)) (items (out_parameters out)))"
  by (simp add: get_raster_def comprehension_filter Let_def)

lemma get_vector_filter:
  "get_vector out ns
     = map (\<lambda>e. Vector (snd e))
         (filter (\<lambda>e. fst e \<in> set (name_list ns)) (items (out_parameters out)))"
  by (simp add: get_vector_def comprehension_filter Let_def)


lemma lookup_append: "lookup (h @ [x]) a = (if a = length h then Some x else lookup h a)"
  by (auto simp: lookup_def nth_append)

lemma lookup_update:
  "lookup (h[i := x]) a = (if a = i \<and> i < length h then Some x else lookup h a)"
  by (auto simp: lookup_def)

lemma lookup_less: "lookup h a = Some x \<Longrightarrow> a < length h"
  by (auto simp: lookup_def split: if_splits)

lemma wf_lookup: "wf_heap h \<Longrightarrow> lookup h a = Some x \<Longrightarrow> wf_obj h x"
  by (auto simp: wf_heap_def lookup_def list_all_length split: if_splits)

lemma flag_deleter_setter: "flag_deleter h self = flag_setter h self None"
  by (simp add: flag_deleter_def flag_setter_def)

lemma flag_setter_Some:
  "flag_setter h self v = Some h' \<longleftrightarrow>
   (\<exists>x r. lookup h self = Some x \<and> obj_flag_ref x = Some r
      \<and> h' = (h @ [OFlag \<lparr>flag = v\<rparr>])[self := obj_set_flag_ref (length h) x])"
  by (auto simp: flag_setter_def new_def split: option.splits)

lemma lookup_rebound:
  assumes "lookup h self = Some x"
  shows "lookup ((h @ [OFlag f])[self := obj_set_flag_ref (length h) x]) a
    = (if a = self then Some (obj_set_flag_ref (length h) x)
       else if a = length h then Some (OFlag f) else lookup h a)"
  using lookup_less [OF assms] by (auto simp: lookup_update lookup_append)

lemma Tool_command_library_flag:
  "Command_init ([ArgSAGACMD c, ArgFlag f, ArgLibrary (l\<lparr>flag_ref := r\<rparr>), ArgStr t] @ ps)
   = Command_init ([ArgSAGACMD c, ArgFlag f, ArgLibrary l, ArgStr t] @ ps)"
  by (simp add: Command_init_def Library_str_def)

lemma command_frame:
  assumes wf_heap: "wf_heap h" and self: "lookup h self = Some x" and inst: "obj_flag_ref x = Some r"
    and other: "other \<noteq> self"
  shows "command ((h @ [OFlag f])[self := obj_set_flag_ref (length h) x]) other = command h other"
proof -
  let ?h = "(h @ [OFlag f])[self := obj_set_flag_ref (length h) x]"
  note L = lookup_rebound [OF self, of f]
  have flag_kept: "lookup ?h a = lookup h a" if "is_flag h a" for a
  proof -
    from that obtain g where g: "lookup h a = Some (OFlag g)"
      by (auto simp: is_flag_def split: option.splits obj.splits)
    with self inst have "a \<noteq> self" by auto
    moreover from g have "a \<noteq> length h" using lookup_less by blast
    ultimately show ?thesis by (simp add: L)
  qed
  show ?thesis
  proof (cases "lookup h other")
    case None
    then show ?thesis using other by (simp add: command_def L)
  next
    case (Some y)
    then have ne: "other \<noteq> length h" using lookup_less by blast
    from wf_lookup [OF wf_heap Some] have wfy: "wf_obj h y" .
    show ?thesis
    proof (cases y)
      case (OFlag g)
      then show ?thesis using Some other ne by (simp add: command_def L)
    next
      case (OSAGA s)
      then show ?thesis using Some other ne wfy flag_kept [of "flag_ref s"]
        by (simp add: command_def L SAGA_command_def)
    next
      case (OLibrary l)
      then show ?thesis using Some other ne wfy flag_kept [of "flag_ref l"]
        by (simp add: command_def L Library_command_def)
    next
      case (OTool t)
      from OTool wfy have fl: "is_flag h (flag_ref t)" and lib: "is_library h (library_ref t)"
        by simp_all
      from lib obtain l where l: "lookup h (library_ref t) = Some (OLibrary l)"
        by (auto simp: is_library_def split: option.splits obj.splits)
      from fl obtain g where g: "lookup h (flag_ref t) = Some (OFlag g)"
        by (auto simp: is_flag_def split: option.splits obj.splits)
      have fr: "lookup ?h (flag_ref t) = Some (OFlag g)"
        using flag_kept [OF fl] g by simp
      have lr: "lookup ?h (library_ref t)
          = Some (OLibrary (if library_ref t = self then l\<lparr>flag_ref := length h\<rparr> else l))"
      proof (cases "library_ref t = self")
        case True
        with l self have "x = OLibrary l" by simp
        with True L [of self] show ?thesis by simp
      next
        case False
        moreover from lookup_less [OF l] have "library_ref t \<noteq> length h" by simp
        ultimately show ?thesis using l by (simp add: L)
      qed
      have "Tool_command ?h t = Tool_command h t"
        unfolding Tool_command_def fr lr g l
        using Tool_command_library_flag [where c = "saga_cmd t" and f = g and l = l
            and r = "length h" and t = "tool t"
            and ps = "map ArgStr (Parameters_iter (parameters t))"]
        by simp
      then show ?thesis using OTool Some other ne by (simp add: command_def L)
    qed
  qed
qed


lemma wf_iff: "wf_heap h \<longleftrightarrow> (\<forall>a x. lookup h a = Some x \<longrightarrow> wf_obj h x)"
  by (auto simp: wf_heap_def lookup_def list_all_length)

lemma is_flag_append: "is_flag h a \<Longrightarrow> is_flag (h @ [x]) a"
  by (auto simp: is_flag_def lookup_append dest: lookup_less split: option.splits obj.splits)

lemma is_library_append: "is_library h a \<Longrightarrow> is_library (h @ [x]) a"
  by (auto simp: is_library_def lookup_append dest: lookup_less split: option.splits obj.splits)

lemma wf_obj_append: "wf_obj h y \<Longrightarrow> wf_obj (h @ [x]) y"
  by (cases y) (simp_all add: is_flag_append is_library_append)

lemma wf_append: "wf_heap h \<Longrightarrow> wf_obj (h @ [x]) x \<Longrightarrow> wf_heap (h @ [x])"
  by (auto simp: wf_iff lookup_append wf_obj_append split: if_splits)

lemma wf_empty: "wf_heap []"
  by (simp add: wf_heap_def)

lemma wf_init_flag:
  "wf_heap h \<Longrightarrow> init_flag h (FlagRaw v) = (r, h') \<Longrightarrow> wf_heap h' \<and> is_flag h' r"
  by (auto simp: init_flag_def new_def wf_append is_flag_def lookup_append)

lemma wf_SAGA_new:
  assumes "wf_heap h" "SAGA_new h c (FlagRaw v) = (a, h')"
  shows "wf_heap h'"
proof -
  from assms(2) have h': "h' = (h @ [OFlag \<lparr>flag = v\<rparr>]) @ [OSAGA \<lparr>saga_cmd = c, flag_ref = length h\<rparr>]"
    by (auto simp: SAGA_new_def init_flag_def new_def)
  have 1: "wf_heap (h @ [OFlag \<lparr>flag = v\<rparr>])" using assms(1) by (simp add: wf_append)
  have 2: "is_flag (h @ [OFlag \<lparr>flag = v\<rparr>]) (length h)"
    by (simp add: is_flag_def lookup_append)
  have 3: "wf_obj ((h @ [OFlag \<lparr>flag = v\<rparr>]) @ [OSAGA \<lparr>saga_cmd = c, flag_ref = length h\<rparr>])
      (OSAGA \<lparr>saga_cmd = c, flag_ref = length h\<rparr>)"
    using is_flag_append [OF 2, of "OSAGA \<lparr>saga_cmd = c, flag_ref = length h\<rparr>"] by simp
  show ?thesis unfolding h' by (rule wf_append [OF 1 3])
qed

lemma wf_get_library:
  assumes "wf_heap h" "SAGA_get_library h self lib = Some (a, h')"
  shows "wf_heap h'"
proof -
  from assms(2) obtain s where s: "lookup h self = Some (OSAGA s)"
    and h': "h' = h @ [OLibrary \<lparr>saga_cmd = saga_cmd s, flag_ref = flag_ref s, library = lib\<rparr>]"
    by (auto simp: SAGA_get_library_def Library_new_def init_flag_def new_def
        split: option.splits obj.splits)
  from wf_lookup [OF assms(1) s] have "is_flag h (flag_ref s)" by simp
  then show ?thesis unfolding h' using assms(1)
    by (intro wf_append) (simp_all add: is_flag_append)
qed

lemma wf_get_tool:
  assumes "wf_heap h" "Library_get_tool h self nm = Some (a, h')"
  shows "wf_heap h'"
proof -
  from assms(2) obtain l where l: "lookup h self = Some (OLibrary l)"
    and h': "h' = h @ [OTool \<lparr>saga_cmd = saga_cmd l, flag_ref = flag_ref l, library_ref = self,
        tool = nm, parameters = Parameters_init (\<lambda>v. v) []\<rparr>]"
    by (auto simp: Library_get_tool_def Tool_new_def init_flag_def new_def
        split: option.splits obj.splits)
  from wf_lookup [OF assms(1) l] have "is_flag h (flag_ref l)" by simp
  moreover from l have "is_library h self" by (simp add: is_library_def)
  ultimately show ?thesis unfolding h' using assms(1)
    by (intro wf_append) (simp_all add: is_flag_append is_library_append)
qed

lemma wf_rebound:
  assumes wf_heap: "wf_heap h" and self: "lookup h self = Some x" and inst: "obj_flag_ref x = Some r"
  shows "wf_heap ((h @ [OFlag f])[self := obj_set_flag_ref (length h) x])"
proof -
  let ?h = "(h @ [OFlag f])[self := obj_set_flag_ref (length h) x]"
  note L = lookup_rebound [OF self, of f]
  have fl: "is_flag ?h a" if "is_flag h a" for a
  proof -
    from that obtain g where g: "lookup h a = Some (OFlag g)"
      by (auto simp: is_flag_def split: option.splits obj.splits)
    with self inst have "a \<noteq> self" by auto
    moreover from lookup_less [OF g] have "a \<noteq> length h" by simp
    ultimately show ?thesis using g by (simp add: L is_flag_def)
  qed
  have lb: "is_library ?h a" if "is_library h a" for a
  proof -
    from that obtain l where l: "lookup h a = Some (OLibrary l)"
      by (auto simp: is_library_def split: option.splits obj.splits)
    from lookup_less [OF l] have ne: "a \<noteq> length h" by simp
    show ?thesis
    proof (cases "a = self")
      case True
      with l self have "x = OLibrary l" by simp
      with True L [of self] show ?thesis by (simp add: is_library_def)
    next
      case False
      with ne l show ?thesis by (simp add: L is_library_def)
    qed
  qed
  from lookup_less [OF self] have new_flag: "is_flag ?h (length h)"
    by (simp add: L is_flag_def)
  have keep: "wf_obj ?h y" if "wf_obj h y" for y
    using that by (cases y) (simp_all add: fl lb)
  have "wf_obj ?h y" if "lookup ?h a = Some y" for a y
  proof (cases "a = self")
    case True
    with that have y: "y = obj_set_flag_ref (length h) x" by (simp add: L)
    from wf_lookup [OF wf_heap self] have wx: "wf_obj h x" .
    show ?thesis
    proof (cases x)
      case (OFlag g)
      with inst show ?thesis by simp
    next
      case (OSAGA s)
      with new_flag show ?thesis by (simp add: y)
    next
      case (OLibrary l)
      with new_flag show ?thesis by (simp add: y)
    next
      case (OTool t)
      with wx have "is_library h (library_ref t)" by simp
      from lb [OF this] new_flag OTool show ?thesis by (simp add: y)
    qed
  next
    case False
    show ?thesis
    proof (cases "a = length h")
      case True
      with False that show ?thesis by (auto simp: L)
    next
      case False
      with \<open>a \<noteq> self\<close> that have "lookup h a = Some y" by (simp add: L)
      from keep [OF wf_lookup [OF wf_heap this]] show ?thesis .
    qed
  qed
  then show ?thesis unfolding wf_iff by blast
qed

lemma wf_flag_setter: "wf_heap h \<Longrightarrow> flag_setter h self v = Some h' \<Longrightarrow> wf_heap h'"
  by (auto simp: flag_setter_Some wf_rebound)

lemma wf_flag_deleter: "wf_heap h \<Longrightarrow> flag_deleter h self = Some h' \<Longrightarrow> wf_heap h'"
  by (simp add: flag_deleter_setter wf_flag_setter)

lemma wf_set_params:
  assumes wf_heap: "wf_heap h" and "set_params str h self kwargs = Some h'"
  shows "wf_heap h'"
proof -
  from assms(2) obtain t where t: "lookup h self = Some (OTool t)"
    and h': "h' = h[self := OTool (t\<lparr>parameters := Parameters_init str kwargs\<rparr>)]"
    by (auto simp: set_params_def split: option.splits obj.splits)
  let ?t = "OTool (t\<lparr>parameters := Parameters_init str kwargs\<rparr>)"
  have fl: "is_flag h' a" if "is_flag h a" for a
    using that t by (auto simp: h' is_flag_def lookup_update split: option.splits obj.splits)
  have lb: "is_library h' a" if "is_library h a" for a
    using that t by (auto simp: h' is_library_def lookup_update split: option.splits obj.splits)
  have keep: "wf_obj h' y" if "wf_obj h y" for y
    using that by (cases y) (simp_all add: fl lb)
  have "wf_obj h' y" if "lookup h' a = Some y" for a y
  proof (cases "a = self")
    case True
    with that lookup_less [OF t] have "y = ?t" by (simp add: h' lookup_update)
    with keep [OF wf_lookup [OF wf_heap t]] show ?thesis by simp
  next
    case False
    with that have "lookup h a = Some y" by (simp add: h' lookup_update)
    from keep [OF wf_lookup [OF wf_heap this]] show ?thesis .
  qed
  then show ?thesis unfolding wf_iff by blast
qed


lemmas heap_eval = SAGA_new_def init_flag_def new_def SAGA_get_library_def Library_new_def
  Library_get_tool_def Tool_new_def lookup_def flag_setter_def flag_deleter_def
  Parameters_init_def dict_comprehension_def


lemma str_args_filter: "[arg_str x. x \<leftarrow> map ArgStr ps, truthy x] = filter (\<lambda>s. s \<noteq> []) ps"
  by (induction ps) auto

lemma Command_init_tool:
  "Command_init ([ArgSAGACMD c, ArgFlag f, ArgLibrary l, ArgStr t] @ map ArgStr ps)
   = \<lparr>args = [saga_cmd_path c] @ (if Flag_bool f then [Flag_str f] else []) @ [library l]
        @ (if t = [] then [] else [t]) @ filter (\<lambda>s. s \<noteq> []) ps\<rparr>"
  using str_args_filter [of ps]
  by (simp add: Command_init_def SAGACMD_str_def Library_str_def)

lemma format_param_nonempty: "format_param k v \<noteq> []"
  by (simp add: format_param_def)

lemma Parameters_iter_nonempty: "[] \<notin> set (Parameters_iter (Parameters_init str kwargs))"
  by (auto simp: Parameters_iter_def Parameters_init_def Let_def params_comprehension
      format_param_def)

lemma Flag_str_nonempty: "Flag_bool f \<Longrightarrow> Flag_str f \<noteq> []"
  by (auto simp: Flag_bool_def Flag_str_def startswith_def split: option.splits)

lemmas command_eval = command_def SAGA_command_def Library_command_def Tool_command_def
  Command_init_def Flag_bool_def Flag_str_def startswith_def SAGACMD_str_def Library_str_def
  Parameters_iter_def set_params_def format_param_def


lemma command_rebound_self:
  assumes self: "lookup h self = Some x" and inst: "obj_flag_ref x = Some r"
  shows "command ((h @ [OFlag f])[self := obj_set_flag_ref (length h) x]) self
    = (case x of
         OFlag g \<Rightarrow> None
       | OSAGA s \<Rightarrow> Some (Command_init [ArgSAGACMD (saga_cmd s), ArgFlag f])
       | OLibrary l \<Rightarrow>
           Some (Command_init [ArgSAGACMD (saga_cmd l), ArgFlag f, ArgStr (library l)])
       | OTool t \<Rightarrow>
           (case lookup h (library_ref t) of
              Some (OLibrary l) \<Rightarrow>
                Some (Command_init ([ArgSAGACMD (saga_cmd t), ArgFlag f, ArgLibrary l,
                                     ArgStr (tool t)]
                                    @ map ArgStr (Parameters_iter (parameters t))))
            | _ \<Rightarrow> None))"
proof -
  define h' where "h' = (h @ [OFlag f])[self := obj_set_flag_ref (length h) x]"
  have L: "lookup h' a = (if a = self then Some (obj_set_flag_ref (length h) x)
       else if a = length h then Some (OFlag f) else lookup h a)" for a
    unfolding h'_def by (rule lookup_rebound [OF self])
  from lookup_less [OF self] have ne: "self \<noteq> length h" by simp
  have fl: "lookup h' (length h) = Some (OFlag f)" using ne by (simp add: L)
  have "command h' self
    = (case x of
         OFlag g \<Rightarrow> None
       | OSAGA s \<Rightarrow> Some (Command_init [ArgSAGACMD (saga_cmd s), ArgFlag f])
       | OLibrary l \<Rightarrow>
           Some (Command_init [ArgSAGACMD (saga_cmd l), ArgFlag f, ArgStr (library l)])
       | OTool t \<Rightarrow>
           (case lookup h (library_ref t) of
              Some (OLibrary l) \<Rightarrow>
                Some (Command_init ([ArgSAGACMD (saga_cmd t), ArgFlag f, ArgLibrary l,
                                     ArgStr (tool t)]
                                    @ map ArgStr (Parameters_iter (parameters t))))
            | _ \<Rightarrow> None))"
  proof (cases x)
    case (OFlag g)
    with inst show ?thesis by simp
  next
    case (OSAGA s)
    from L [of self] OSAGA have "lookup h' self = Some (OSAGA (s\<lparr>flag_ref := length h\<rparr>))"
      by simp
    with fl OSAGA show ?thesis by (simp add: command_def SAGA_command_def)
  next
    case (OLibrary l)
    from L [of self] OLibrary have "lookup h' self = Some (OLibrary (l\<lparr>flag_ref := length h\<rparr>))"
      by simp
    with fl OLibrary show ?thesis by (simp add: command_def Library_command_def)
  next
    case (OTool t)
    from L [of self] OTool have s': "lookup h' self = Some (OTool (t\<lparr>flag_ref := length h\<rparr>))"
      by simp
    have lr: "(case lookup h' (library_ref t) of Some (OLibrary l) \<Rightarrow> Some (F l) | _ \<Rightarrow> None)
        = (case lookup h (library_ref t) of Some (OLibrary l) \<Rightarrow> Some (F l) | _ \<Rightarrow> None)"
      for F :: "Library \<Rightarrow> Command"
    proof (cases "library_ref t = self")
      case True
      with s' self OTool show ?thesis by simp
    next
      case False
      show ?thesis
      proof (cases "library_ref t = length h")
        case True
        then have "lookup h (library_ref t) = None" by (simp add: lookup_def)
        with True fl show ?thesis by simp
      next
        case False
        with \<open>library_ref t \<noteq> self\<close> show ?thesis by (simp add: L)
      qed
    qed
    have "command h' self
        = (case lookup h' (library_ref t) of
              Some (OLibrary l) \<Rightarrow>
                Some (Command_init ([ArgSAGACMD (saga_cmd t), ArgFlag f, ArgLibrary l,
                                     ArgStr (tool t)]
                                    @ map ArgStr (Parameters_iter (parameters t))))
            | _ \<Rightarrow> None)"
      using s' fl
      by (simp add: command_def Tool_command_def cong: option.case_cong obj.case_cong)
    also note lr
    finally show ?thesis using OTool by simp
  qed
  then show ?thesis unfolding h'_def .
qed

lemma command_flag_getter:
  assumes self: "lookup h self = Some x" and g: "flag_getter h self = Some g"
  shows "command h self
    = (case x of
         OFlag g \<Rightarrow> None
       | OSAGA s \<Rightarrow> Some (Command_init [ArgSAGACMD (saga_cmd s), ArgFlag g])
       | OLibrary l \<Rightarrow>
           Some (Command_init [ArgSAGACMD (saga_cmd l), ArgFlag g, ArgStr (library l)])
       | OTool t \<Rightarrow>
           (case lookup h (library_ref t) of
              Some (OLibrary l) \<Rightarrow>
                Some (Command_init ([ArgSAGACMD (saga_cmd t), ArgFlag g, ArgLibrary l,
                                     ArgStr (tool t)]
                                    @ map ArgStr (Parameters_iter (parameters t))))
            | _ \<Rightarrow> None))"
  using assms
  by (cases x)
    (auto simp: flag_getter_def command_def SAGA_command_def Library_command_def
      Tool_command_def split: option.splits obj.splits)


lemma SAGA_init_object:
  "SAGA_init sys h (SagaCmdObject c) fa = (Inr (SAGA_new h c fa), sys)"
  by (simp add: SAGA_init_def init_saga_cmd_def)

lemma Library_init_object:
  "Library_init sys h lib (SagaCmdObject c) fa = (Inr (Library_new h lib c fa), sys)"
  by (simp add: Library_init_def init_saga_cmd_def)

lemma Tool_init_object:
  "Tool_init sys h lib nm (SagaCmdObject c) fa = (Inr (Tool_new h lib nm c fa), sys)"
  by (simp add: Tool_init_def init_saga_cmd_def)

lemma get_library_is_constructor:
  "lookup h self = Some (OSAGA s) \<Longrightarrow>
   Library_init sys h lib (SagaCmdObject (saga_cmd s)) (FlagObject (flag_ref s))
     = (Inr (the (SAGA_get_library h self lib)), sys)"
  by (simp add: Library_init_object SAGA_get_library_def)

lemma get_tool_is_constructor:
  "lookup h self = Some (OLibrary l) \<Longrightarrow>
   Tool_init sys h self nm (SagaCmdObject (saga_cmd l)) (FlagObject (flag_ref l))
     = (Inr (the (Library_get_tool h self nm)), sys)"
  by (simp add: Tool_init_object Library_get_tool_def)


lemma flag_setter_succeeds:
  "lookup h self = Some x \<Longrightarrow> obj_flag_ref x = Some r \<Longrightarrow> \<exists>h'. flag_setter h self v = Some h'"
  by (simp add: flag_setter_def new_def)

lemma flag_deleter_succeeds:
  "lookup h self = Some x \<Longrightarrow> obj_flag_ref x = Some r \<Longrightarrow> \<exists>h'. flag_deleter h self = Some h'"
  by (simp add: flag_deleter_def new_def)

lemma get_library_succeeds:
  "lookup h self = Some (OSAGA s) \<Longrightarrow> \<exists>l h'. SAGA_get_library h self lib = Some (l, h')"
  by (simp add: SAGA_get_library_def Library_new_def init_flag_def new_def)

lemma get_tool_succeeds:
  "lookup h self = Some (OLibrary l) \<Longrightarrow> \<exists>t h'. Library_get_tool h self nm = Some (t, h')"
  by (simp add: Library_get_tool_def Tool_new_def init_flag_def new_def)

lemma set_params_succeeds:
  "lookup h self = Some (OTool t) \<Longrightarrow> \<exists>h'. set_params str h self kwargs = Some h'"
  by (simp add: set_params_def)

lemma command_succeeds:
  assumes "wf_heap h" and "lookup h self = Some x" and "obj_flag_ref x = Some r"
  shows "\<exists>c. command h self = Some c"
proof -
  from wf_lookup [OF assms(1,2)] have "wf_obj h x" .
  with assms(2,3) show ?thesis
    by (cases x)
      (auto simp: command_def SAGA_command_def Library_command_def Tool_command_def
        is_flag_def is_library_def split: option.splits obj.splits)
qed


section \<open>Claims\<close>

text \<open>
  C1. For keyword arguments with distinct names (a dict), the tokens that iterating the
  Parameters object yields are, one for each argument and in the order of the arguments,
  \<open>-\<close>, the name in upper case, \<open>=\<close> and the string form of the value; the mapping
  keeps the names as given with the string forms of the values. Constructing from no
  argument gives the empty mapping and no token.
\<close>

theorem Parameters_tokens:
  "(distinct (map fst kwargs) \<longrightarrow>
      Parameters_iter (Parameters_init str kwargs)
        = map (\<lambda>(k, v). ''-'' @ upper k @ ''='' @ str v) kwargs
      \<and> length (Parameters_iter (Parameters_init str kwargs)) = length kwargs
      \<and> items (Parameters_init str kwargs) = map (\<lambda>(k, v). (k, str v)) kwargs)
   \<and> Parameters_init str [] = \<lparr>items = [], params = []\<rparr>
   \<and> Parameters_iter (Parameters_init str []) = []"
  by (simp add: Parameters_init_def Parameters_iter_def dict_comprehension_distinct Let_def
      params_comprehension format_param_def split_def comp_def)

theorem Parameters_tokens_witness:
  "distinct (map fst [(''elevation'', ''path/to/raster''), (''grid'', ''path/to/grid''),
                      (''method'', ''0'')])
   \<and> Parameters_iter (Parameters_init (\<lambda>v. v)
        [(''elevation'', ''path/to/raster''), (''grid'', ''path/to/grid''), (''method'', ''0'')])
     = [''-ELEVATION=path/to/raster'', ''-GRID=path/to/grid'', ''-METHOD=0'']"
proof -
  have u: "upper ''elevation'' = ''ELEVATION''" "upper ''grid'' = ''GRID''"
    "upper ''method'' = ''METHOD''"
    by code_simp+
  show ?thesis
    using Parameters_tokens [of "[(''elevation'', ''path/to/raster''),
      (''grid'', ''path/to/grid''), (''method'', ''0'')]" "\<lambda>v. v"]
    by (simp add: u)
qed

text \<open>
  C3. The canonical string of a Flag: a raw value that already starts with \<open>--\<close> is
  returned unchanged; any other non-empty raw value gets \<open>--\<close> in front; an absent raw
  value gives the empty string.
\<close>

theorem Flag_str_canonical:
  "(startswith s ''--'' \<longrightarrow> Flag_str \<lparr>flag = Some s\<rparr> = s)
   \<and> (r \<noteq> [] \<longrightarrow> \<not> startswith r ''--'' \<longrightarrow> Flag_str \<lparr>flag = Some r\<rparr> = ''--'' @ r)
   \<and> Flag_str \<lparr>flag = None\<rparr> = []"
  by (simp add: Flag_str_def)

theorem Flag_str_canonical_witness:
  "startswith ''--help'' ''--'' \<and> Flag_str \<lparr>flag = Some ''--help''\<rparr> = ''--help''
   \<and> ''cores=8'' \<noteq> [] \<and> \<not> startswith ''cores=8'' ''--''
   \<and> Flag_str \<lparr>flag = Some ''cores=8''\<rparr> = ''--cores=8''"
  using Flag_str_canonical [of "''--help''" "''cores=8''"] by (simp add: startswith_def)

text \<open>
  C4. \<open>get_raster\<close> and \<open>get_vector\<close>, asked for one name, return the handle of the
  entry stored under exactly that name (none when no entry has it); asked for a sequence
  of names, they return one handle for each stored entry whose key is in the sequence.
  Each handle is around the stored value and the handles come in the order of the stored
  entries: two sequences with the same names give the same list, whatever their order,
  and names that match no key give no handle. From the entries elevation, grid and
  method, the request for elevation and grid gives the handles of \<open>out.tif\<close> and
  \<open>grid.tif\<close>, the request for the one name grid gives the handle of \<open>grid.tif\<close>, and
  the request for a missing name gives the empty list.
\<close>

theorem typed_extraction:
  "get_raster out (Name s)
     = map (\<lambda>e. Raster (snd e)) (filter (\<lambda>e. fst e = s) (items (out_parameters out)))
   \<and> get_vector out (Name s)
     = map (\<lambda>e. Vector (snd e)) (filter (\<lambda>e. fst e = s) (items (out_parameters out)))
   \<and> get_raster out (Names l)
     = map (\<lambda>e. Raster (snd e)) (filter (\<lambda>e. fst e \<in> set l) (items (out_parameters out)))
   \<and> get_vector out (Names l)
     = map (\<lambda>e. Vector (snd e)) (filter (\<lambda>e. fst e \<in> set l) (items (out_parameters out)))
   \<and> (set l = set l' \<longrightarrow>
        get_raster out (Names l) = get_raster out (Names l')
        \<and> get_vector out (Names l) = get_vector out (Names l'))
   \<and> (set m \<inter> fst ` set (items (out_parameters out)) = {} \<longrightarrow>
        get_raster out (Names m) = [] \<and> get_vector out (Names m) = [])
   \<and> (r \<notin> fst ` set (items (out_parameters out)) \<longrightarrow>
        get_raster out (Name r) = [] \<and> get_vector out (Name r) = [])
   \<and> get_raster (Output_init cp (Parameters_init (\<lambda>v. v)
          [(''elevation'', ''out.tif''), (''grid'', ''grid.tif''), (''method'', ''0'')]))
        (Names [''elevation'', ''grid'']) = [Raster ''out.tif'', Raster ''grid.tif'']
   \<and> get_raster (Output_init cp (Parameters_init (\<lambda>v. v)
          [(''elevation'', ''out.tif''), (''grid'', ''grid.tif''), (''method'', ''0'')]))
        (Name ''grid'') = [Raster ''grid.tif'']
   \<and> get_raster (Output_init cp (Parameters_init (\<lambda>v. v)
          [(''elevation'', ''out.tif''), (''grid'', ''grid.tif''), (''method'', ''0'')]))
        (Names [''missing'']) = []"
proof -
  have miss: "set m \<inter> fst ` set (items (out_parameters out)) = {} \<Longrightarrow>
     filter (\<lambda>e. fst e \<in> set m) (items (out_parameters out)) = []"
    by (auto simp: filter_empty_conv)
  have miss1: "r \<notin> fst ` set (items (out_parameters out)) \<Longrightarrow>
     filter (\<lambda>e. fst e = r) (items (out_parameters out)) = []"
    by (auto simp: filter_empty_conv)
  have stored: "items (Parameters_init (\<lambda>v. v)
          [(''elevation'', ''out.tif''), (''grid'', ''grid.tif''), (''method'', ''0'')])
      = [(''elevation'', ''out.tif''), (''grid'', ''grid.tif''), (''method'', ''0'')]"
    by (simp add: Parameters_init_def dict_comprehension_def)
  show ?thesis
    using miss miss1
    by (simp add: get_raster_filter get_vector_filter stored Output_init_def name_list_def)
qed

theorem typed_extraction_witness:
  "(let out = Output_init \<lparr>argv = [''saga_cmd''], returncode = 0, stdout = [], stderr = []\<rparr>
                (Parameters_init (\<lambda>v. v) [(''elevation'', ''out.shp''), (''grid'', ''grid.shp'')])
    in set [''grid'', ''elevation''] = set [''elevation'', ''grid'']
       \<and> get_vector out (Names [''grid'', ''elevation'']) = [Vector ''out.shp'', Vector ''grid.shp'']
       \<and> get_vector out (Names [''elevation'', ''grid'']) = [Vector ''out.shp'', Vector ''grid.shp'']
       \<and> get_vector out (Name ''elevation'') = [Vector ''out.shp'']
       \<and> get_raster out (Name ''grid'') = [Raster ''grid.shp'']
       \<and> set [''missing''] \<inter> fst ` set (items (out_parameters out)) = {}
       \<and> get_raster out (Names [''missing'']) = []
       \<and> ''missing'' \<notin> fst ` set (items (out_parameters out))
       \<and> get_vector out (Name ''missing'') = [])"
proof -
  have stored: "items (Parameters_init (\<lambda>v. v) [(''elevation'', ''out.shp''), (''grid'', ''grid.shp'')])
      = [(''elevation'', ''out.shp''), (''grid'', ''grid.shp'')]"
    by (simp add: Parameters_init_def dict_comprehension_def)
  let ?out = "Output_init \<lparr>argv = [''saga_cmd''], returncode = 0, stdout = [], stderr = []\<rparr>
           (Parameters_init (\<lambda>v. v) [(''elevation'', ''out.shp''), (''grid'', ''grid.shp'')])"
  from typed_extraction [of ?out "''elevation''" "[''grid'', ''elevation'']"
        "[''elevation'', ''grid'']" "[''missing'']" "''missing''"]
    typed_extraction [of ?out "''grid''" "[''elevation'', ''grid'']"
        "[''elevation'', ''grid'']" "[''missing'']" "''missing''"]
  show ?thesis
    by (simp add: stored Output_init_def insert_commute Let_def)
qed

text \<open>
  C9, as the code has it. Two Flags are equal exactly when their canonical strings are
  equal. A Flag is equal to a plain string exactly when the canonical string of the Flag
  is that string: the plain string is compared as it is, it gets no prefix.
\<close>

theorem Flag_eq_canonical:
  "Flag_eq a (OperandFlag b) = (Flag_str a = Flag_str b)
   \<and> Flag_eq a (OperandStr t) = (Flag_str a = t)"
  by (auto simp: Flag_eq_def Flag_eq_string_def str_eq_def)

theorem Flag_eq_canonical_witness:
  "Flag_eq \<lparr>flag = Some ''help''\<rparr> (OperandFlag \<lparr>flag = Some ''--help''\<rparr>)
   \<and> Flag_eq \<lparr>flag = Some ''help''\<rparr> (OperandStr ''--help'')"
  using Flag_eq_canonical [of "\<lparr>flag = Some ''help''\<rparr>" "\<lparr>flag = Some ''--help''\<rparr>"
      "''--help''"]
  by (simp add: Flag_str_def startswith_def)

text \<open>
  C9, as the specification states it, fails: the Flag made from \<open>help\<close> and the plain string
  \<open>help\<close> have the same canonical string when the string is read as a raw flag value,
  and the equality test is false.
\<close>

theorem Flag_eq_plain_string_counterexample:
  "Flag_str \<lparr>flag = Some ''help''\<rparr> = ''--help''
   \<and> \<not> Flag_eq \<lparr>flag = Some ''help''\<rparr> (OperandStr ''help'')"
  by (simp add: Flag_eq_def str_eq_def Flag_str_def startswith_def)

text \<open>
  C7. In a well-formed heap, setting, replacing or clearing the Flag of one Executable
  leaves the command of every other object as it was: the setter and the deleter bind
  \<open>_flag\<close> of \<open>self\<close> to a new Flag object and never write to the Flag object that
  parent and child share after a descent. Descent and the setters keep the heap well
  formed (lemmas \<open>wf_get_library\<close>, \<open>wf_get_tool\<close>, \<open>wf_flag_setter\<close>,
  \<open>wf_flag_deleter\<close>), so this covers every ancestor and descendant created before.
\<close>

theorem flag_state_independent:
  assumes "wf_heap h" and "other \<noteq> self"
  shows "(flag_setter h self v = Some h' \<longrightarrow> command h' other = command h other)
       \<and> (flag_deleter h self = Some h'' \<longrightarrow> command h'' other = command h other)"
  using assms by (auto simp: flag_deleter_setter flag_setter_Some command_frame)

theorem flag_state_independent_witness:
  "(case SAGA_new [] \<lparr>saga_cmd_path = ''saga_cmd''\<rparr> (FlagRaw (Some ''cores=8'')) of (p, h1) \<Rightarrow>
     case SAGA_get_library h1 p ''ta_morphometry'' of None \<Rightarrow> False | Some (l, h2) \<Rightarrow>
     case Library_get_tool h2 l ''0'' of None \<Rightarrow> False | Some (t, h3) \<Rightarrow>
     case flag_setter h3 p (Some ''help'') of None \<Rightarrow> False | Some h4 \<Rightarrow>
     case flag_deleter h3 l of None \<Rightarrow> False | Some h5 \<Rightarrow>
       wf_heap h3 \<and> t \<noteq> p \<and> l \<noteq> p \<and> t \<noteq> l
       \<and> command h4 p = Some \<lparr>args = [''saga_cmd'', ''--help'']\<rparr>
       \<and> command h4 t = command h3 t \<and> command h4 l = command h3 l
       \<and> command h5 l = Some \<lparr>args = [''saga_cmd'', ''ta_morphometry'']\<rparr>
       \<and> command h5 t = command h3 t \<and> command h5 p = command h3 p
       \<and> command h3 t = Some \<lparr>args = [''saga_cmd'', ''--cores=8'', ''ta_morphometry'', ''0'']\<rparr>)"
proof -
  let ?c = "\<lparr>saga_cmd_path = ''saga_cmd''\<rparr>"
  let ?h1 = "[OFlag \<lparr>flag = Some ''cores=8''\<rparr>, OSAGA \<lparr>saga_cmd = ?c, flag_ref = 0\<rparr>]"
  let ?h2 = "?h1 @ [OLibrary \<lparr>saga_cmd = ?c, flag_ref = 0, library = ''ta_morphometry''\<rparr>]"
  let ?h3 = "?h2 @ [OTool \<lparr>saga_cmd = ?c, flag_ref = 0, library_ref = 2, tool = ''0'',
            parameters = \<lparr>items = [], params = []\<rparr>\<rparr>]"
  have new: "SAGA_new [] ?c (FlagRaw (Some ''cores=8'')) = (1, ?h1)"
    by (simp add: heap_eval)
  have lib: "SAGA_get_library ?h1 1 ''ta_morphometry'' = Some (2, ?h2)"
    by (simp add: heap_eval)
  have tl: "Library_get_tool ?h2 2 ''0'' = Some (3, ?h3)"
    by (simp add: heap_eval)
  have wf3: "wf_heap ?h3"
    by (simp add: wf_heap_def is_flag_def is_library_def lookup_def)
  obtain h4 where set: "flag_setter ?h3 1 (Some ''help'') = Some h4"
    by (simp add: heap_eval)
  obtain h5 where clear: "flag_deleter ?h3 2 = Some h5"
    by (simp add: heap_eval)
  from flag_state_independent [OF wf3, of 3 1 "Some ''help''" h4] set
  have f1: "command h4 3 = command ?h3 3" by simp
  from flag_state_independent [OF wf3, of 2 1 "Some ''help''" h4] set
  have f2: "command h4 2 = command ?h3 2" by simp
  from flag_state_independent [OF wf3, of 3 2 _ _ h5] clear
  have f3: "command h5 3 = command ?h3 3" by simp
  from flag_state_independent [OF wf3, of 1 2 _ _ h5] clear
  have f4: "command h5 1 = command ?h3 1" by simp
  have c4: "command h4 1 = Some \<lparr>args = [''saga_cmd'', ''--help'']\<rparr>"
    using set by (auto simp: heap_eval command_eval)
  have c5: "command h5 2 = Some \<lparr>args = [''saga_cmd'', ''ta_morphometry'']\<rparr>"
    using clear by (auto simp: heap_eval command_eval)
  have c3: "command ?h3 3 = Some \<lparr>args = [''saga_cmd'', ''--cores=8'', ''ta_morphometry'', ''0'']\<rparr>"
    by (simp add: command_eval lookup_def)
  from new lib tl wf3 set clear f1 f2 f3 f4 c4 c5 c3 show ?thesis
    by simp
qed

text \<open>
  Where the module name and the path text are not empty, the command of a Tool reached
  from a SAGA object through \<open>get_library\<close> and \<open>get_tool\<close> and given its parameters
  is: the executable path, the flag token exactly when the flag is set, the module name,
  the operation name unless it is the empty string, and the parameter tokens in the order
  of the keyword arguments; no token is empty.
\<close>

lemma Tool_command_tokens:
  assumes p: "lookup h p = Some (OSAGA s)"
    and f: "lookup h (flag_ref s) = Some (OFlag f)"
    and lib: "SAGA_get_library h p lib = Some (l, h1)"
    and tl: "Library_get_tool h1 l tool_name = Some (t, h2)"
    and ps: "set_params str h2 t kwargs = Some h3"
    and kw: "distinct (map fst kwargs)"
    and path: "saga_cmd_path (saga_cmd s) \<noteq> []"
    and name: "lib \<noteq> []"
  shows "command h3 t
      = Some \<lparr>args = [saga_cmd_path (saga_cmd s)]
            @ (if Flag_bool f then [Flag_str f] else [])
            @ [lib]
            @ (if tool_name = [] then [] else [tool_name])
            @ map (\<lambda>(k, v). ''-'' @ upper k @ ''='' @ str v) kwargs\<rparr>
    \<and> [] \<notin> set ([saga_cmd_path (saga_cmd s)]
            @ (if Flag_bool f then [Flag_str f] else [])
            @ [lib]
            @ (if tool_name = [] then [] else [tool_name])
            @ map (\<lambda>(k, v). ''-'' @ upper k @ ''='' @ str v) kwargs)"
proof -
  let ?L = "OLibrary \<lparr>saga_cmd = saga_cmd s, flag_ref = flag_ref s, library = lib\<rparr>"
  let ?T = "\<lparr>saga_cmd = saga_cmd s, flag_ref = flag_ref s, library_ref = length h,
      tool = tool_name, parameters = Parameters_init (\<lambda>v. v) []\<rparr>"
  let ?T' = "?T\<lparr>parameters := Parameters_init str kwargs\<rparr>"
  from lib p have l: "l = length h" and h1: "h1 = h @ [?L]"
    by (auto simp: SAGA_get_library_def Library_new_def init_flag_def new_def)
  from tl have t: "t = Suc (length h)" and h2: "h2 = (h @ [?L]) @ [OTool ?T]"
    unfolding l h1
    by (auto simp: Library_get_tool_def Tool_new_def init_flag_def new_def lookup_append)
  have lt: "lookup h2 t = Some (OTool ?T)"
    unfolding h2 t by (simp add: lookup_def nth_append)
  from ps lt have h3: "h3 = h2[t := OTool ?T']"
    by (simp add: set_params_def)
  have less: "flag_ref s < length h" using lookup_less [OF f] .
  have 1: "lookup h3 t = Some (OTool ?T')"
    unfolding h3 h2 t by (simp add: lookup_def)
  have 2: "lookup h3 (flag_ref s) = Some (OFlag f)"
    using f less unfolding h3 h2 t by (simp add: lookup_def nth_append)
  have 3: "lookup h3 (length h) = Some ?L"
    unfolding h3 h2 t by (simp add: lookup_def nth_append)
  have tokens: "Parameters_iter (Parameters_init str kwargs)
      = map (\<lambda>(k, v). ''-'' @ upper k @ ''='' @ str v) kwargs"
    using kw
    by (simp add: Parameters_init_def Parameters_iter_def dict_comprehension_distinct Let_def
        params_comprehension format_param_def split_def comp_def)
  have nonempty: "filter (\<lambda>s. s \<noteq> []) (map (\<lambda>(k, v). ''-'' @ upper k @ ''='' @ str v) kwargs)
      = map (\<lambda>(k, v). ''-'' @ upper k @ ''='' @ str v) kwargs"
    by (induction kwargs) auto
  have cmd: "command h3 t
      = Some \<lparr>args = [saga_cmd_path (saga_cmd s)]
            @ (if Flag_bool f then [Flag_str f] else [])
            @ [lib]
            @ (if tool_name = [] then [] else [tool_name])
            @ map (\<lambda>(k, v). ''-'' @ upper k @ ''='' @ str v) kwargs\<rparr>"
    unfolding command_def 1 Tool_command_def
    using 2 3 Command_init_tool [of "saga_cmd s" f
        "\<lparr>saga_cmd = saga_cmd s, flag_ref = flag_ref s, library = lib\<rparr>" tool_name
        "Parameters_iter (Parameters_init str kwargs)"] nonempty
    by (simp add: tokens)
  have "[] \<notin> set (map (\<lambda>(k, v). ''-'' @ upper k @ ''='' @ str v) kwargs)"
    by auto
  with path name Flag_str_nonempty [of f] cmd show ?thesis
    by auto
qed


lemma Tool_command_tokens_example:
  "(case SAGA_new [] \<lparr>saga_cmd_path = ''saga_cmd''\<rparr> (FlagRaw (Some ''cores=8'')) of (p, h) \<Rightarrow>
     case SAGA_get_library h p ''ta_morphometry'' of None \<Rightarrow> False | Some (l, h1) \<Rightarrow>
     case Library_get_tool h1 l ''0'' of None \<Rightarrow> False | Some (t, h2) \<Rightarrow>
     case set_params (\<lambda>v. v) h2 t [(''elevation'', ''dem.tif''), (''slope'', ''slope.tif'')] of
       None \<Rightarrow> False
     | Some h3 \<Rightarrow>
         command h3 t = Some \<lparr>args = [''saga_cmd'', ''--cores=8'', ''ta_morphometry'', ''0'',
                                        ''-ELEVATION=dem.tif'', ''-SLOPE=slope.tif'']\<rparr>)"
proof -
  let ?c = "\<lparr>saga_cmd_path = ''saga_cmd''\<rparr>"
  let ?s = "\<lparr>saga_cmd = ?c, flag_ref = 0\<rparr>"
  let ?f = "\<lparr>flag = Some ''cores=8''\<rparr>"
  let ?h = "[OFlag ?f, OSAGA ?s]"
  let ?L = "OLibrary \<lparr>saga_cmd = ?c, flag_ref = 0, library = ''ta_morphometry''\<rparr>"
  let ?h1 = "?h @ [?L]"
  let ?h2 = "?h1 @ [OTool \<lparr>saga_cmd = ?c, flag_ref = 0, library_ref = 2, tool = ''0'',
            parameters = \<lparr>items = [], params = []\<rparr>\<rparr>]"
  let ?kw = "[(''elevation'', ''dem.tif''), (''slope'', ''slope.tif'')]"
  have u: "upper ''elevation'' = ''ELEVATION''" "upper ''slope'' = ''SLOPE''"
    by code_simp+
  have new: "SAGA_new [] ?c (FlagRaw (Some ''cores=8'')) = (1, ?h)"
    by (simp add: heap_eval)
  have p: "lookup ?h 1 = Some (OSAGA ?s)" and f: "lookup ?h (flag_ref ?s) = Some (OFlag ?f)"
    by (simp_all add: lookup_def)
  have lib: "SAGA_get_library ?h 1 ''ta_morphometry'' = Some (2, ?h1)"
    by (simp add: heap_eval)
  have tl: "Library_get_tool ?h1 2 ''0'' = Some (3, ?h2)"
    by (simp add: heap_eval)
  obtain h3 where ps: "set_params (\<lambda>v. v) ?h2 3 ?kw = Some h3"
    by (simp add: set_params_def lookup_def)
  from Tool_command_tokens [OF p f lib tl ps]
  have "command h3 3 = Some \<lparr>args = [''saga_cmd'', ''--cores=8'', ''ta_morphometry'', ''0'',
                                        ''-ELEVATION=dem.tif'', ''-SLOPE=slope.tif'']\<rparr>"
    by (simp add: u Flag_bool_def Flag_str_def startswith_def)
  with new lib tl ps show ?thesis by simp
qed

text \<open>
  C2. The command of a Tool is to have no empty token. The code breaks this for a module
  name that is the empty string: \<open>Tool.command\<close> hands the Library object to
  \<open>Command\<close>, an object that defines neither \<open>__bool__\<close> nor \<open>__len__\<close> is true, the
  filter of \<open>Command.__init__\<close> keeps it, and its string, the empty name, becomes a
  token. On the same heap \<open>Library.command\<close>, which hands over the name itself, drops it.
\<close>

theorem Tool_command_empty_module_name:
  "(case SAGA_new [] \<lparr>saga_cmd_path = ''saga_cmd''\<rparr> (FlagRaw None) of (p, h) \<Rightarrow>
     case SAGA_get_library h p [] of None \<Rightarrow> False | Some (l, h1) \<Rightarrow>
     case Library_get_tool h1 l ''0'' of None \<Rightarrow> False | Some (t, h2) \<Rightarrow>
       command h2 l = Some \<lparr>args = [''saga_cmd'']\<rparr>
       \<and> command h2 t = Some \<lparr>args = [''saga_cmd'', [], ''0'']\<rparr>)"
  by (simp add: heap_eval command_eval)

text \<open>
  C8. Setting the Flag of an Executable to any value and then clearing it leaves, for
  every level and whatever Flag it had before, the command without a flag token: the
  path for a SAGA object, the path and the name for a Library, the path, the module name,
  the operation name and the parameter tokens for a Tool (names and tokens that are empty
  strings are filtered out as in every command). The Flag is then unset; the command is
  the one the level has whenever its Flag is unset, and the one that clearing alone gives.
\<close>

theorem flag_set_then_clear:
  assumes set: "flag_setter h self v = Some h1" and clear: "flag_deleter h1 self = Some h2"
  shows "(lookup h self = Some (OSAGA s) \<longrightarrow>
            command h2 self = Some \<lparr>args = [saga_cmd_path (saga_cmd s)]\<rparr>)
       \<and> (lookup h self = Some (OLibrary l) \<longrightarrow>
            command h2 self
            = Some \<lparr>args = [saga_cmd_path (saga_cmd l)]
                        @ (if library l = [] then [] else [library l])\<rparr>)
       \<and> (lookup h self = Some (OTool t) \<longrightarrow> lookup h (library_ref t) = Some (OLibrary l') \<longrightarrow>
            command h2 self
            = Some \<lparr>args = [saga_cmd_path (saga_cmd t), library l']
                        @ (if tool t = [] then [] else [tool t])
                        @ filter (\<lambda>s. s \<noteq> []) (Parameters_iter (parameters t))\<rparr>)
       \<and> flag_getter h2 self = Some \<lparr>flag = None\<rparr>
       \<and> (flag_getter h self = Some \<lparr>flag = None\<rparr> \<longrightarrow> command h2 self = command h self)
       \<and> (flag_deleter h self = Some h0 \<longrightarrow> command h2 self = command h0 self)"
proof -
  from set obtain x r where x: "lookup h self = Some x" and r: "obj_flag_ref x = Some r"
    and h1: "h1 = (h @ [OFlag \<lparr>flag = v\<rparr>])[self := obj_set_flag_ref (length h) x]"
    by (auto simp: flag_setter_Some)
  let ?x1 = "obj_set_flag_ref (length h) x"
  note L = lookup_rebound [OF x, of "\<lparr>flag = v\<rparr>"]
  have x1: "lookup h1 self = Some ?x1" unfolding h1 by (simp add: L)
  from r have r1: "obj_flag_ref ?x1 = Some (length h)" by (cases x) simp_all
  from clear x1 have h2: "h2 = (h1 @ [OFlag \<lparr>flag = None\<rparr>])[self := obj_set_flag_ref (length h1) ?x1]"
    by (auto simp: flag_deleter_setter flag_setter_Some)
  from lookup_less [OF x] have ne: "self \<noteq> length h" by simp
  have lib: "(case lookup h1 a of Some (OLibrary l) \<Rightarrow> Some (F l) | _ \<Rightarrow> None)
      = (case lookup h a of Some (OLibrary l) \<Rightarrow> Some (F l) | _ \<Rightarrow> None)"
    if "x = OTool t" for a t and F :: "Library \<Rightarrow> Command"
  proof (cases "a = self")
    case True
    with x1 x that show ?thesis by simp
  next
    case False
    show ?thesis
    proof (cases "a = length h")
      case True
      then have "lookup h a = None" by (simp add: lookup_def)
      with True ne show ?thesis unfolding h1 by (simp add: L)
    next
      case False
      with \<open>a \<noteq> self\<close> show ?thesis unfolding h1 by (simp add: L)
    qed
  qed
  have c2: "command h2 self
    = (case x of
         OFlag g \<Rightarrow> None
       | OSAGA s \<Rightarrow> Some (Command_init [ArgSAGACMD (saga_cmd s), ArgFlag \<lparr>flag = None\<rparr>])
       | OLibrary l \<Rightarrow>
           Some (Command_init [ArgSAGACMD (saga_cmd l), ArgFlag \<lparr>flag = None\<rparr>, ArgStr (library l)])
       | OTool t \<Rightarrow>
           (case lookup h (library_ref t) of
              Some (OLibrary l) \<Rightarrow>
                Some (Command_init ([ArgSAGACMD (saga_cmd t), ArgFlag \<lparr>flag = None\<rparr>,
                                     ArgLibrary l, ArgStr (tool t)]
                                    @ map ArgStr (Parameters_iter (parameters t))))
            | _ \<Rightarrow> None))"
  proof (cases x)
    case (OFlag g)
    with r show ?thesis by simp
  next
    case (OSAGA s)
    then show ?thesis unfolding h2 command_rebound_self [OF x1 r1] by simp
  next
    case (OLibrary l)
    then show ?thesis unfolding h2 command_rebound_self [OF x1 r1] by simp
  next
    case (OTool t)
    then have 1: "?x1 = OTool (t\<lparr>flag_ref := length h\<rparr>)" by simp
    note command_rebound_self [OF x1 r1, of "\<lparr>flag = None\<rparr>", folded h2]
    then have "command h2 self
        = (case lookup h1 (library_ref t) of
              Some (OLibrary l) \<Rightarrow>
                Some (Command_init ([ArgSAGACMD (saga_cmd t), ArgFlag \<lparr>flag = None\<rparr>,
                                     ArgLibrary l, ArgStr (tool t)]
                                    @ map ArgStr (Parameters_iter (parameters t))))
            | _ \<Rightarrow> None)"
      unfolding 1 by (simp cong: option.case_cong obj.case_cong)
    also note lib [OF OTool]
    finally show ?thesis using OTool by simp
  qed
  have a: "command h2 self = command h self" if "flag_getter h self = Some \<lparr>flag = None\<rparr>"
    unfolding c2 command_flag_getter [OF x that] ..
  have b: "command h2 self = command h0 self" if "flag_deleter h self = Some h0"
  proof -
    from that x have "h0 = (h @ [OFlag \<lparr>flag = None\<rparr>])[self := obj_set_flag_ref (length h) x]"
      by (auto simp: flag_deleter_setter flag_setter_Some)
    then show ?thesis unfolding c2 by (simp add: command_rebound_self [OF x r])
  qed
  have len: "length h1 = Suc (length h)" unfolding h1 by simp
  from lookup_less [OF x1] have "self < length h1" .
  then have c: "flag_getter h2 self = Some \<lparr>flag = None\<rparr>"
    unfolding h2 using r
    by (cases x) (simp_all add: flag_getter_def lookup_def nth_append)
  have saga: "command h2 self = Some \<lparr>args = [saga_cmd_path (saga_cmd s)]\<rparr>"
    if "lookup h self = Some (OSAGA s)"
    using that x unfolding c2
    by (auto simp: Command_init_def Flag_bool_def SAGACMD_str_def)
  have library: "command h2 self
            = Some \<lparr>args = [saga_cmd_path (saga_cmd l)]
                        @ (if library l = [] then [] else [library l])\<rparr>"
    if "lookup h self = Some (OLibrary l)"
    using that x unfolding c2
    by (auto simp: Command_init_def Flag_bool_def SAGACMD_str_def)
  have tool: "command h2 self
            = Some \<lparr>args = [saga_cmd_path (saga_cmd t), library l']
                        @ (if tool t = [] then [] else [tool t])
                        @ filter (\<lambda>s. s \<noteq> []) (Parameters_iter (parameters t))\<rparr>"
    if "lookup h self = Some (OTool t)" and "lookup h (library_ref t) = Some (OLibrary l')"
    using that x Command_init_tool [where c = "saga_cmd t" and f = "\<lparr>flag = None\<rparr>"
        and l = l' and t = "tool t" and ps = "Parameters_iter (parameters t)"]
    unfolding c2
    by (auto simp: Flag_bool_def)
  from saga library tool a b c show ?thesis by blast
qed


theorem flag_set_then_clear_witness:
  "(let c = \<lparr>saga_cmd_path = ''saga_cmd''\<rparr>;
        P = \<lparr>items = [(''elevation'', ''dem.tif'')], params = [''-ELEVATION=dem.tif'']\<rparr>;
        S = \<lparr>saga_cmd = c, flag_ref = 0\<rparr>;
        L = \<lparr>saga_cmd = c, flag_ref = 0, library = ''ta_morphometry''\<rparr>;
        T = \<lparr>saga_cmd = c, flag_ref = 0, library_ref = 2, tool = ''0'', parameters = P\<rparr>;
        H = [OFlag \<lparr>flag = Some ''cores=8''\<rparr>, OSAGA S, OLibrary L, OTool T];
        G = [OFlag \<lparr>flag = None\<rparr>, OSAGA S, OLibrary L, OTool T]
    in (case flag_setter H 1 (Some ''help'') of None \<Rightarrow> False | Some h1 \<Rightarrow>
        case flag_deleter h1 1 of None \<Rightarrow> False | Some h2 \<Rightarrow>
          lookup H 1 = Some (OSAGA S)
          \<and> command H 1 = Some \<lparr>args = [''saga_cmd'', ''--cores=8'']\<rparr>
          \<and> command h2 1 = Some \<lparr>args = [''saga_cmd'']\<rparr>)
     \<and> (case flag_setter H 2 (Some ''help'') of None \<Rightarrow> False | Some h1 \<Rightarrow>
        case flag_deleter h1 2 of None \<Rightarrow> False | Some h2 \<Rightarrow>
          lookup H 2 = Some (OLibrary L)
          \<and> command H 2 = Some \<lparr>args = [''saga_cmd'', ''--cores=8'', ''ta_morphometry'']\<rparr>
          \<and> command h2 2 = Some \<lparr>args = [''saga_cmd'', ''ta_morphometry'']\<rparr>)
     \<and> (case flag_setter H 3 (Some ''help'') of None \<Rightarrow> False | Some h1 \<Rightarrow>
        case flag_deleter h1 3 of None \<Rightarrow> False | Some h2 \<Rightarrow>
        case flag_deleter H 3 of None \<Rightarrow> False | Some h0 \<Rightarrow>
          lookup H 3 = Some (OTool T) \<and> lookup H (library_ref T) = Some (OLibrary L)
          \<and> command H 3 = Some \<lparr>args = [''saga_cmd'', ''--cores=8'', ''ta_morphometry'', ''0'',
                                          ''-ELEVATION=dem.tif'']\<rparr>
          \<and> command h2 3 = Some \<lparr>args = [''saga_cmd'', ''ta_morphometry'', ''0'',
                                           ''-ELEVATION=dem.tif'']\<rparr>
          \<and> flag_getter h2 3 = Some \<lparr>flag = None\<rparr>
          \<and> command h2 3 = command h0 3)
     \<and> (case flag_setter G 3 (Some ''help'') of None \<Rightarrow> False | Some h1 \<Rightarrow>
        case flag_deleter h1 3 of None \<Rightarrow> False | Some h2 \<Rightarrow>
          flag_getter G 3 = Some \<lparr>flag = None\<rparr>
          \<and> command h1 3 = Some \<lparr>args = [''saga_cmd'', ''--help'', ''ta_morphometry'', ''0'',
                                           ''-ELEVATION=dem.tif'']\<rparr>
          \<and> command h2 3 = command G 3))"
proof -
  let ?c = "\<lparr>saga_cmd_path = ''saga_cmd''\<rparr>"
  let ?P = "\<lparr>items = [(''elevation'', ''dem.tif'')], params = [''-ELEVATION=dem.tif'']\<rparr>"
  let ?S = "\<lparr>saga_cmd = ?c, flag_ref = 0\<rparr>"
  let ?L = "\<lparr>saga_cmd = ?c, flag_ref = 0, library = ''ta_morphometry''\<rparr>"
  let ?T = "\<lparr>saga_cmd = ?c, flag_ref = 0, library_ref = 2, tool = ''0'', parameters = ?P\<rparr>"
  let ?H = "[OFlag \<lparr>flag = Some ''cores=8''\<rparr>, OSAGA ?S, OLibrary ?L, OTool ?T]"
  let ?G = "[OFlag \<lparr>flag = None\<rparr>, OSAGA ?S, OLibrary ?L, OTool ?T]"
  have l1: "lookup ?H 1 = Some (OSAGA ?S)" and l2: "lookup ?H 2 = Some (OLibrary ?L)"
    and l3: "lookup ?H 3 = Some (OTool ?T)"
    and ll: "lookup ?H (library_ref ?T) = Some (OLibrary ?L)"
    by (simp_all add: lookup_def)
  have b1: "command ?H 1 = Some \<lparr>args = [''saga_cmd'', ''--cores=8'']\<rparr>"
    and b2: "command ?H 2 = Some \<lparr>args = [''saga_cmd'', ''--cores=8'', ''ta_morphometry'']\<rparr>"
    and b3: "command ?H 3 = Some \<lparr>args = [''saga_cmd'', ''--cores=8'', ''ta_morphometry'', ''0'',
                                          ''-ELEVATION=dem.tif'']\<rparr>"
    by (simp_all add: command_eval lookup_def)
  obtain p1 where s1: "flag_setter ?H 1 (Some ''help'') = Some p1"
    by (simp add: heap_eval)
  then obtain p2 where d1: "flag_deleter p1 1 = Some p2"
    by (auto simp: heap_eval)
  obtain q1 where s2: "flag_setter ?H 2 (Some ''help'') = Some q1"
    by (simp add: heap_eval)
  then obtain q2 where d2: "flag_deleter q1 2 = Some q2"
    by (auto simp: heap_eval)
  obtain t1 where s3: "flag_setter ?H 3 (Some ''help'') = Some t1"
    by (simp add: heap_eval)
  then obtain t2 where d3: "flag_deleter t1 3 = Some t2"
    by (auto simp: heap_eval)
  obtain t0 where d0: "flag_deleter ?H 3 = Some t0"
    by (simp add: heap_eval)
  obtain g1 where s4: "flag_setter ?G 3 (Some ''help'') = Some g1"
    by (simp add: heap_eval)
  then obtain g2 where d4: "flag_deleter g1 3 = Some g2"
    by (auto simp: heap_eval)
  have unset: "flag_getter ?G 3 = Some \<lparr>flag = None\<rparr>"
    by (simp add: flag_getter_def lookup_def)
  have cg: "command g1 3 = Some \<lparr>args = [''saga_cmd'', ''--help'', ''ta_morphometry'', ''0'',
                                           ''-ELEVATION=dem.tif'']\<rparr>"
    using s4 by (auto simp: heap_eval command_eval)
  note A = flag_set_then_clear [OF s1 d1, THEN conjunct1, rule_format, OF l1]
  note B = flag_set_then_clear [OF s2 d2, THEN conjunct2, THEN conjunct1, rule_format, OF l2]
  note C = flag_set_then_clear [OF s3 d3, THEN conjunct2, THEN conjunct2, THEN conjunct1,
      rule_format, OF l3 ll]
  note D = flag_set_then_clear [OF s3 d3, THEN conjunct2, THEN conjunct2, THEN conjunct2,
      THEN conjunct1]
  note E = flag_set_then_clear [OF s4 d4, THEN conjunct2, THEN conjunct2, THEN conjunct2,
      THEN conjunct2, THEN conjunct1, rule_format, OF unset]
  note F = flag_set_then_clear [OF s3 d3, of _ _ _ _ t0, THEN conjunct2, THEN conjunct2,
      THEN conjunct2, THEN conjunct2, THEN conjunct2, rule_format, OF d0]
  have a: "command p2 1 = Some \<lparr>args = [''saga_cmd'']\<rparr>"
    using A by simp
  have b: "command q2 2 = Some \<lparr>args = [''saga_cmd'', ''ta_morphometry'']\<rparr>"
    using B by simp
  have c: "command t2 3 = Some \<lparr>args = [''saga_cmd'', ''ta_morphometry'', ''0'',
                                           ''-ELEVATION=dem.tif'']\<rparr>"
    using C by (simp add: Parameters_iter_def)
  show ?thesis
    unfolding Let_def
    using l1 l2 l3 ll b1 b2 b3 s1 d1 s2 d2 s3 d3 d0 s4 d4 unset cg a b c D E F
    by simp
qed

text \<open>
  C10. \<open>Tool.run_command\<close> called with no named value leaves the heap, and with it the
  Parameters of the Tool, as they are; the command it executes is built from those
  Parameters and the Output it returns holds them. Called with at least one named value it
  replaces the Parameters of the Tool by the newly built ones, which the executed command
  and the Output then use.
\<close>

theorem run_command_parameters:
  assumes t: "lookup h self = Some (OTool t)"
    and f: "lookup h (flag_ref t) = Some (OFlag f)"
    and l: "lookup h (library_ref t) = Some (OLibrary l)"
  shows "run_command str sys h self []
      = Some (case Command_execute sys
                     (Command_init ([ArgSAGACMD (saga_cmd t), ArgFlag f, ArgLibrary l,
                                     ArgStr (tool t)]
                                    @ map ArgStr (Parameters_iter (parameters t)))) of
                (Inl e, sys') \<Rightarrow> (Inl e, sys', h)
              | (Inr completed, sys') \<Rightarrow> (Inr (Output_init completed (parameters t)), sys', h))
    \<and> (kwargs \<noteq> [] \<longrightarrow>
        run_command str sys h self kwargs
        = Some (case Command_execute sys
                       (Command_init ([ArgSAGACMD (saga_cmd t), ArgFlag f, ArgLibrary l,
                                       ArgStr (tool t)]
                                      @ map ArgStr (Parameters_iter (Parameters_init str kwargs)))) of
                  (Inl e, sys') \<Rightarrow>
                    (Inl e, sys', h[self := OTool (t\<lparr>parameters := Parameters_init str kwargs\<rparr>)])
                | (Inr completed, sys') \<Rightarrow>
                    (Inr (Output_init completed (Parameters_init str kwargs)), sys',
                     h[self := OTool (t\<lparr>parameters := Parameters_init str kwargs\<rparr>)])))"
proof -
  have keep: "run_command str sys h self []
      = Some (case Command_execute sys
                     (Command_init ([ArgSAGACMD (saga_cmd t), ArgFlag f, ArgLibrary l,
                                     ArgStr (tool t)]
                                    @ map ArgStr (Parameters_iter (parameters t)))) of
                (Inl e, sys') \<Rightarrow> (Inl e, sys', h)
              | (Inr completed, sys') \<Rightarrow> (Inr (Output_init completed (parameters t)), sys', h))"
    using t f l
    by (simp add: run_command_def Tool_command_def split: prod.splits sum.splits)
  define t' where "t' = t\<lparr>parameters := Parameters_init str kwargs\<rparr>"
  define h' where "h' = h[self := OTool t']"
  from lookup_less [OF t] have L: "lookup h' a = (if a = self then Some (OTool t') else lookup h a)" for a
    unfolding h'_def by (simp add: lookup_update)
  from t f have "flag_ref t \<noteq> self" by auto
  with f have f': "lookup h' (flag_ref t') = Some (OFlag f)" by (simp add: L t'_def)
  from t l have "library_ref t \<noteq> self" by auto
  with l have l': "lookup h' (library_ref t') = Some (OLibrary l)" by (simp add: L t'_def)
  have sp: "set_params str h self kwargs = Some h'"
    using t by (simp add: set_params_def h'_def t'_def)
  have "run_command str sys h self kwargs
        = Some (case Command_execute sys
                       (Command_init ([ArgSAGACMD (saga_cmd t), ArgFlag f, ArgLibrary l,
                                       ArgStr (tool t)]
                                      @ map ArgStr (Parameters_iter (Parameters_init str kwargs)))) of
                  (Inl e, sys') \<Rightarrow> (Inl e, sys', h')
                | (Inr completed, sys') \<Rightarrow>
                    (Inr (Output_init completed (Parameters_init str kwargs)), sys', h'))"
    if "kwargs \<noteq> []"
    using that sp L [of self] f' l'
    by (simp add: run_command_def Tool_command_def t'_def split: prod.splits sum.splits)
  then have repl: "kwargs \<noteq> [] \<longrightarrow>
        run_command str sys h self kwargs
        = Some (case Command_execute sys
                       (Command_init ([ArgSAGACMD (saga_cmd t), ArgFlag f, ArgLibrary l,
                                       ArgStr (tool t)]
                                      @ map ArgStr (Parameters_iter (Parameters_init str kwargs)))) of
                  (Inl e, sys') \<Rightarrow>
                    (Inl e, sys', h[self := OTool (t\<lparr>parameters := Parameters_init str kwargs\<rparr>)])
                | (Inr completed, sys') \<Rightarrow>
                    (Inr (Output_init completed (Parameters_init str kwargs)), sys',
                     h[self := OTool (t\<lparr>parameters := Parameters_init str kwargs\<rparr>)]))"
    unfolding h'_def t'_def by blast
  from keep repl show ?thesis by (rule conjI)
qed

theorem run_command_parameters_witness:
  "(let S = \<lparr>files = (\<lambda>p. None), sagacmd_default = ''saga_cmd'',
              run_child = (\<lambda>a. Exits 0 [111, 107] []), decode = ascii_decode, spawned = []\<rparr>;
        c = \<lparr>saga_cmd_path = ''saga_cmd''\<rparr>;
        P = \<lparr>items = [(''elevation'', ''dem.tif'')], params = [''-ELEVATION=dem.tif'']\<rparr>;
        T = \<lparr>saga_cmd = c, flag_ref = 0, library_ref = 2, tool = ''0'', parameters = P\<rparr>;
        H = [OFlag \<lparr>flag = None\<rparr>, OSAGA \<lparr>saga_cmd = c, flag_ref = 0\<rparr>,
             OLibrary \<lparr>saga_cmd = c, flag_ref = 0, library = ''ta_morphometry''\<rparr>, OTool T]
    in lookup H 3 = Some (OTool T)
       \<and> lookup H (flag_ref T) = Some (OFlag \<lparr>flag = None\<rparr>)
       \<and> lookup H (library_ref T)
          = Some (OLibrary \<lparr>saga_cmd = c, flag_ref = 0, library = ''ta_morphometry''\<rparr>)
       \<and> run_command (\<lambda>v. v) S H 3 []
          = Some (Inr \<lparr>completed_process =
                        \<lparr>argv = [''saga_cmd'', ''ta_morphometry'', ''0'', ''-ELEVATION=dem.tif''],
                          returncode = 0, stdout = ''ok'', stderr = []\<rparr>,
                       out_parameters = P, text_out = ''ok''\<rparr>,
                  S\<lparr>spawned := [[''saga_cmd'', ''ta_morphometry'', ''0'', ''-ELEVATION=dem.tif'']]\<rparr>,
                  H)
       \<and> [(''slope'', ''s.tif'')] \<noteq> []
       \<and> run_command (\<lambda>v. v) S H 3 [(''slope'', ''s.tif'')]
          = Some (Inr \<lparr>completed_process =
                        \<lparr>argv = [''saga_cmd'', ''ta_morphometry'', ''0'', ''-SLOPE=s.tif''],
                          returncode = 0, stdout = ''ok'', stderr = []\<rparr>,
                       out_parameters = \<lparr>items = [(''slope'', ''s.tif'')],
                                         params = [''-SLOPE=s.tif'']\<rparr>,
                       text_out = ''ok''\<rparr>,
                  S\<lparr>spawned := [[''saga_cmd'', ''ta_morphometry'', ''0'', ''-SLOPE=s.tif'']]\<rparr>,
                  H[3 := OTool (T\<lparr>parameters := \<lparr>items = [(''slope'', ''s.tif'')],
                                                  params = [''-SLOPE=s.tif'']\<rparr>\<rparr>)]))"
proof -
  let ?S = "\<lparr>files = (\<lambda>p. None), sagacmd_default = ''saga_cmd'',
              run_child = (\<lambda>a. Exits 0 [111, 107] []), decode = ascii_decode, spawned = []\<rparr>"
  let ?c = "\<lparr>saga_cmd_path = ''saga_cmd''\<rparr>"
  let ?P = "\<lparr>items = [(''elevation'', ''dem.tif'')], params = [''-ELEVATION=dem.tif'']\<rparr>"
  let ?T = "\<lparr>saga_cmd = ?c, flag_ref = 0, library_ref = 2, tool = ''0'', parameters = ?P\<rparr>"
  let ?L = "\<lparr>saga_cmd = ?c, flag_ref = 0, library = ''ta_morphometry''\<rparr>"
  let ?H = "[OFlag \<lparr>flag = None\<rparr>, OSAGA \<lparr>saga_cmd = ?c, flag_ref = 0\<rparr>, OLibrary ?L, OTool ?T]"
  have d: "translate_newlines ascii_decode [111, 107] = Some ''ok''"
    "translate_newlines ascii_decode [] = Some []"
    by code_simp+
  have nul:
    "\<not> list_ex (\<lambda>s. CHR 0x00 \<in> set s)
        [''saga_cmd'', ''ta_morphometry'', ''0'', ''-ELEVATION=dem.tif'']"
    "\<not> list_ex (\<lambda>s. CHR 0x00 \<in> set s)
        [''saga_cmd'', ''ta_morphometry'', ''0'', ''-SLOPE=s.tif'']"
    by code_simp+
  have u: "upper ''slope'' = ''SLOPE''"
    by code_simp
  have P': "Parameters_init (\<lambda>v. v) [(''slope'', ''s.tif'')]
      = \<lparr>items = [(''slope'', ''s.tif'')], params = [''-SLOPE=s.tif'']\<rparr>"
    by (simp add: Parameters_init_def dict_comprehension_def format_param_def u)
  have t: "lookup ?H 3 = Some (OTool ?T)"
    and f: "lookup ?H (flag_ref ?T) = Some (OFlag \<lparr>flag = None\<rparr>)"
    and l: "lookup ?H (library_ref ?T) = Some (OLibrary ?L)"
    by (simp_all add: lookup_def)
  from run_command_parameters [OF t f l, of "\<lambda>v. v" ?S "[(''slope'', ''s.tif'')]"] t f l
  show ?thesis
    using nul
    by (simp add: Let_def P' d Command_execute_def subprocess_run_def Command_init_def
        Flag_bool_def SAGACMD_str_def Library_str_def Parameters_iter_def Output_init_def)
qed





text \<open>
  C6. Constructing a SAGACMD checks, in this order, that the path exists, that it is not
  a directory and that it is executable; each failure has an error kind of its own, a
  directory fails as a directory whether or not it is executable, the system is left as
  it was (no process is started), and a SAGA object whose path fails is not created.
\<close>

theorem SAGACMD_validation:
  "(files sys p = None \<longrightarrow> SAGACMD_init sys (Some p) = (Inl PathDoesNotExist, sys))
   \<and> (files sys p = Some e \<longrightarrow> is_dir e
        \<longrightarrow> SAGACMD_init sys (Some p) = (Inl IsADirectoryError, sys))
   \<and> (files sys p = Some e \<longrightarrow> \<not> is_dir e \<longrightarrow> \<not> executable e
        \<longrightarrow> SAGACMD_init sys (Some p) = (Inl NotExecutableError, sys))
   \<and> (files sys p = Some e \<longrightarrow> \<not> is_dir e \<longrightarrow> executable e
        \<longrightarrow> SAGACMD_init sys (Some p) = (Inr \<lparr>saga_cmd_path = p\<rparr>, sys))
   \<and> SAGACMD_init sys None = SAGACMD_init sys (Some (sagacmd_default sys))
   \<and> snd (SAGACMD_init sys a) = sys
   \<and> (fst (SAGACMD_init sys a) = Inl x
        \<longrightarrow> SAGA_init sys h (SagaCmdPath a) fa = (Inl x, sys)
          \<and> x \<in> set [PathDoesNotExist, IsADirectoryError, NotExecutableError])"
  by (auto simp: SAGACMD_init_def check_is_file_def check_is_executable_def SAGA_init_def
      init_saga_cmd_def Let_def split: option.splits sum.splits)


theorem SAGACMD_validation_witness:
  "(let S = \<lparr>files = (\<lambda>p. if p = ''/usr/bin'' then Some \<lparr>is_dir = True, executable = True\<rparr>
                           else if p = ''/usr/bin/saga_cmd''
                             then Some \<lparr>is_dir = False, executable = True\<rparr>
                           else if p = ''/tmp/notes''
                             then Some \<lparr>is_dir = False, executable = False\<rparr>
                           else None),
              sagacmd_default = ''/usr/bin/saga_cmd'',
              run_child = (\<lambda>a. SpawnFails ''ENOENT''),
              decode = ascii_decode, spawned = []\<rparr>
    in files S ''/nowhere'' = None
       \<and> SAGACMD_init S (Some ''/nowhere'') = (Inl PathDoesNotExist, S)
       \<and> files S ''/usr/bin'' = Some \<lparr>is_dir = True, executable = True\<rparr>
       \<and> SAGACMD_init S (Some ''/usr/bin'') = (Inl IsADirectoryError, S)
       \<and> files S ''/tmp/notes'' = Some \<lparr>is_dir = False, executable = False\<rparr>
       \<and> SAGACMD_init S (Some ''/tmp/notes'') = (Inl NotExecutableError, S)
       \<and> files S ''/usr/bin/saga_cmd'' = Some \<lparr>is_dir = False, executable = True\<rparr>
       \<and> SAGACMD_init S None = (Inr \<lparr>saga_cmd_path = ''/usr/bin/saga_cmd''\<rparr>, S)
       \<and> fst (SAGACMD_init S (Some ''/usr/bin'')) = Inl IsADirectoryError
       \<and> SAGA_init S [] (SagaCmdPath (Some ''/usr/bin'')) (FlagRaw None)
          = (Inl IsADirectoryError, S))"
proof -
  let ?S = "\<lparr>files = (\<lambda>p. if p = ''/usr/bin'' then Some \<lparr>is_dir = True, executable = True\<rparr>
                           else if p = ''/usr/bin/saga_cmd''
                             then Some \<lparr>is_dir = False, executable = True\<rparr>
                           else if p = ''/tmp/notes''
                             then Some \<lparr>is_dir = False, executable = False\<rparr>
                           else None),
              sagacmd_default = ''/usr/bin/saga_cmd'',
              run_child = (\<lambda>a. SpawnFails ''ENOENT''),
              decode = ascii_decode, spawned = []\<rparr>"
  from SAGACMD_validation [of ?S "''/nowhere''"]
    SAGACMD_validation [of ?S "''/usr/bin''" "\<lparr>is_dir = True, executable = True\<rparr>"
      "Some ''/usr/bin''" IsADirectoryError "[]" "FlagRaw None"]
    SAGACMD_validation [of ?S "''/tmp/notes''" "\<lparr>is_dir = False, executable = False\<rparr>"]
    SAGACMD_validation [of ?S "''/usr/bin/saga_cmd''" "\<lparr>is_dir = False, executable = True\<rparr>"]
  show ?thesis
    by (simp add: Let_def)
qed

end
